theory Spec2Isabelle
  imports Main "HOL-Library.Char_ord" "HOL-Library.List_Lexorder"
begin

section \<open>Python strings and the \<open>os.path\<close> functions the module calls\<close>

text \<open>
  A Python \<open>str\<close> is modelled as a \<open>string\<close> (a list of characters); the functions
  below follow \<open>str\<close> and \<open>posixpath\<close>/\<open>genericpath\<close> of the standard library, which
  \<open>cluster_pack/packaging.py\<close> calls on every path it handles. A function \<open>_f\<close> of
  the module is \<open>f\<close> here, since a name cannot begin with an underscore; an
  exception raised is the \<open>Inl\<close> of a sum.
\<close>

definition endswith :: "string \<Rightarrow> string \<Rightarrow> bool" where
  "endswith s suf = (length suf \<le> length s \<and> drop (length s - length suf) s = suf)"

definition startswith :: "string \<Rightarrow> string \<Rightarrow> bool" where
  "startswith s pre = (take (length pre) s = pre)"

text \<open>\<open>s.rfind(c)\<close>: the index of the last occurrence of \<open>c\<close>, or \<open>-1\<close>.\<close>

definition rfind :: "string \<Rightarrow> char \<Rightarrow> int" where
  "rfind s c =
     (if c \<in> set s
      then int (length s) - 1 - int (length (takeWhile (\<lambda>x. x \<noteq> c) (rev s)))
      else - 1)"

text \<open>
  \<open>s.split(c)\<close> for a one-character separator: one more part than separators (the
  split of the rest of the string is never the empty list).
\<close>

fun split_on :: "char \<Rightarrow> string \<Rightarrow> string list" where
  "split_on c [] = [[]]"
| "split_on c (x # xs) =
     (if x = c then [] # split_on c xs
      else (case split_on c xs of
              [] \<Rightarrow> [[x]]
            | part # parts \<Rightarrow> (x # part) # parts))"

text \<open>\<open>s.rstrip(c)\<close> for a one-character set.\<close>

definition rstrip_char :: "char \<Rightarrow> string \<Rightarrow> string" where
  "rstrip_char c s = rev (dropWhile (\<lambda>x. x = c) (rev s))"

text \<open>
  \<open>posixpath.basename\<close>:
  \<^verbatim>\<open>i = p.rfind('/') + 1; return p[i:]\<close>
\<close>

definition basename :: "string \<Rightarrow> string" where
  "basename p = drop (nat (rfind p (CHR ''/'') + 1)) p"

text \<open>
  \<open>posixpath.dirname\<close>:
  \<^verbatim>\<open>i = p.rfind('/') + 1; head = p[:i]
  if head and head != '/' * len(head): head = head.rstrip('/')
  return head\<close>
\<close>

definition dirname :: "string \<Rightarrow> string" where
  "dirname p =
     (let head = take (nat (rfind p (CHR ''/'') + 1)) p
      in if head \<noteq> [] \<and> head \<noteq> replicate (length head) (CHR ''/'')
         then rstrip_char (CHR ''/'') head else head)"

text \<open>
  \<open>genericpath._splitext\<close>, which \<open>posixpath.splitext\<close> calls with
  \<open>sep = '/'\<close>, no \<open>altsep\<close> and \<open>extsep = '.'\<close>:
  \<^verbatim>\<open>sepIndex = p.rfind(sep)
  dotIndex = p.rfind(extsep)
  if dotIndex > sepIndex:
      filenameIndex = sepIndex + 1
      while filenameIndex < dotIndex:
          if p[filenameIndex:filenameIndex+1] != extsep:
              return p[:dotIndex], p[dotIndex:]
          filenameIndex += 1
  return p, p[:0]\<close>
\<close>

function splitext_loop :: "string \<Rightarrow> int \<Rightarrow> int \<Rightarrow> string \<times> string" where
  "splitext_loop p filenameIndex dotIndex =
     (if filenameIndex < dotIndex
      then (if take 1 (drop (nat filenameIndex) p) \<noteq> ''.''
            then (take (nat dotIndex) p, drop (nat dotIndex) p)
            else splitext_loop p (filenameIndex + 1) dotIndex)
      else (p, []))"
  by pat_completeness auto
termination
  by (relation "measure (\<lambda>(p, f, d). nat (d - f))") auto

declare splitext_loop.simps [simp del]

definition splitext :: "string \<Rightarrow> string \<times> string" where
  "splitext p =
     (let sepIndex = rfind p (CHR ''/'');
          dotIndex = rfind p (CHR ''.'')
      in if dotIndex > sepIndex then splitext_loop p (sepIndex + 1) dotIndex
         else (p, []))"

text \<open>
  \<open>posixpath.join\<close>, one component at a time:
  \<^verbatim>\<open>for b in p:
      if b.startswith('/'): path = b
      elif not path or path.endswith('/'): path += b
      else: path += '/' + b\<close>
\<close>

definition join2 :: "string \<Rightarrow> string \<Rightarrow> string" where
  "join2 path b =
     (if startswith b ''/'' then b
      else if path = [] \<or> endswith path ''/'' then path @ b
      else path @ ''/'' @ b)"

definition join :: "string \<Rightarrow> string list \<Rightarrow> string" where
  "join a p = foldl join2 a p"

section \<open>Errors and packers\<close>

text \<open>
  The exceptions the module raises or lets through, as values. \<open>ValueError\<close> and
  \<open>RuntimeError\<close> carry the message the source formats; \<open>JSONDecodeError\<close> carries
  the document it was raised on (its \<open>doc\<close> attribute). \<open>OtherError\<close> stands for
  the exceptions of the operating system the module lets through (\<open>PermissionError\<close>
  and the other subclasses of \<open>OSError\<close>).
\<close>

datatype error =
    ValueError string
  | RuntimeError string
  | IndexError
  | ImportError
  | ModuleNotFoundError
  | FileNotFoundError
  | JSONDecodeError string
  | CalledProcessError
  | TypeError
  | UnicodeDecodeError
  | OtherError string

text \<open>The two packer singletons \<open>CONDA_PACKER\<close> and \<open>PEX_PACKER\<close>.\<close>

datatype packer = CONDA_PACKER | PEX_PACKER

fun extension :: "packer \<Rightarrow> string" where
  "extension CONDA_PACKER = ''tar.gz''"
| "extension PEX_PACKER = ''pex''"

section \<open>\<open>detect_packer_from_spec\<close>\<close>

text \<open>
  \<^verbatim>\<open>if os.path.basename(spec_file) == "requirements.txt": return PEX_PACKER
  elif spec_file.endswith(".yaml") or spec_file.endswith(".yml"): return CONDA_PACKER
  else: raise ValueError(...)\<close>
\<close>

definition detect_packer_from_spec :: "string \<Rightarrow> error + packer" where
  "detect_packer_from_spec spec_file =
     (if basename spec_file = ''requirements.txt'' then Inr PEX_PACKER
      else if endswith spec_file ''.yaml'' \<or> endswith spec_file ''.yml''
      then Inr CONDA_PACKER
      else Inl (ValueError (''Archive format '' @ spec_file @ '' unsupported. ''
                            @ ''Must be requirements.txt or conda .yaml'')))"

section \<open>The command line of \<open>pack_in_pex\<close>\<close>

text \<open>
  The loop over the requirements, with the command under construction as its state:
  \<^verbatim>\<open>for req in requirements:
      pkg_name = req.split("=")[0]
      if pkg_name in ignored_packages: _logger.debug(...)
      else: _logger.debug(...); cmd.append(req)\<close>
\<close>

fun add_requirements :: "string list \<Rightarrow> string list \<Rightarrow> string list \<Rightarrow> string list" where
  "add_requirements cmd ignored_packages [] = cmd"
| "add_requirements cmd ignored_packages (req # requirements) =
     (let pkg_name = hd (split_on (CHR ''='') req)
      in if pkg_name \<in> set ignored_packages
         then add_requirements cmd ignored_packages requirements
         else add_requirements (cmd @ [req]) ignored_packages requirements)"


text \<open>\<open>sep.join(parts)\<close>.\<close>

fun sep_join :: "string \<Rightarrow> string list \<Rightarrow> string" where
  "sep_join sep [] = []"
| "sep_join sep [x] = x"
| "sep_join sep (x # y # ys) = x @ sep @ sep_join sep (y # ys)"

text \<open>
  \<open>posixpath.normpath\<close>. The loop over the components keeps \<open>new_comps\<close> as its
  state:
  \<^verbatim>\<open>for comp in comps:
      if comp in ('', '.'): continue
      if (comp != '..' or (not initial_slashes and not new_comps) or
              (new_comps and new_comps[-1] == '..')):
          new_comps.append(comp)
      elif new_comps:
          new_comps.pop()\<close>
\<close>

fun normpath_loop :: "nat \<Rightarrow> string list \<Rightarrow> string list \<Rightarrow> string list" where
  "normpath_loop initial_slashes new_comps [] = new_comps"
| "normpath_loop initial_slashes new_comps (component # comps) =
     (if component = [] \<or> component = ''.''
      then normpath_loop initial_slashes new_comps comps
      else if component \<noteq> ''..'' \<or> (initial_slashes = 0 \<and> new_comps = [])
              \<or> (new_comps \<noteq> [] \<and> last new_comps = ''..'')
      then normpath_loop initial_slashes (new_comps @ [component]) comps
      else if new_comps \<noteq> [] then normpath_loop initial_slashes (butlast new_comps) comps
      else normpath_loop initial_slashes new_comps comps)"

definition initial_slashes_of :: "string \<Rightarrow> nat" where
  "initial_slashes_of path =
     (if startswith path ''/''
      then (if startswith path ''//'' \<and> \<not> startswith path ''///'' then 2 else 1)
      else 0)"

definition normpath :: "string \<Rightarrow> string" where
  "normpath path =
     (if path = [] then ''.''
      else let initial_slashes = initial_slashes_of path;
               comps = normpath_loop initial_slashes [] (split_on (CHR ''/'') path);
               path' = replicate initial_slashes (CHR ''/'') @ sep_join ''/'' comps
           in if path' = [] then ''.'' else path')"

definition isabs :: "string \<Rightarrow> bool" where
  "isabs s = startswith s ''/''"

text \<open>
  \<open>posixpath.abspath\<close>, with the value of \<open>os.getcwd()\<close> as a parameter:
  \<^verbatim>\<open>if not isabs(path): path = join(os.getcwd(), path)
  return normpath(path)\<close>
\<close>

definition abspath :: "string \<Rightarrow> string \<Rightarrow> string" where
  "abspath cwd path = normpath (if \<not> isabs path then join cwd [path] else path)"





section \<open>The process the module runs in\<close>

text \<open>
  What the module reads from its process and from the programs it starts, as one
  record passed to every function that reads it:
  \<^item> \<open>environ\<close>: \<open>os.environ\<close>;
  \<^item> \<open>import_pex\<close>: what \<open>import _pex\<close> does, the module's \<open>__file__\<close> or the
    exception raised;
  \<^item> \<open>sys_executable\<close>, \<open>getcwd\<close>, \<open>getuser\<close>: \<open>sys.executable\<close>, \<open>os.getcwd()\<close>,
    \<open>getpass.getuser()\<close>;
  \<^item> \<open>check_output\<close>: \<open>subprocess.check_output(cmd)\<close>, decoded, or the exception;
  \<^item> \<open>subprocess_run\<close>: what \<open>subprocess.run(cmd, stderr=PIPE, stdout=PIPE)\<close> does: the
    exception it raises (\<open>FileNotFoundError\<close> when the program is not found), or the
    return code and the bytes of the standard error of the completed process;
  \<^item> \<open>read_text\<close>: \<open>open(path).read()\<close>, or the exception;
  \<^item> \<open>find_module\<close>: the second component of the triple \<open>imp.find_module(name)\<close>
    returns, or the exception: the path of the module, or \<open>None\<close> for a built-in or
    frozen module;
  \<^item> \<open>copytree\<close>: the exception \<open>shutil.copytree(src, dst)\<close> raises, if any;
  \<^item> \<open>mkdtemp\<close>: the directory \<open>tempfile.TemporaryDirectory()\<close> creates;
  \<^item> \<open>live_editable_dirs\<close>: what \<open>_get_editable_requirements(executable)\<close>
    returns from pip and setuptools in a live environment, or the exception;
  \<^item> \<open>zipfile_open\<close>: the exception \<open>zipfile.ZipFile(path, 'w', ZIP_DEFLATED)\<close> raises,
    if any (\<open>FileNotFoundError\<close> when the directory of \<open>path\<close> does not exist);
  \<^item> \<open>os_stat\<close>: the year of the modification time \<open>os.stat(path)\<close> gives, in local
    time, or the exception (\<open>FileNotFoundError\<close> for a dangling link);
  \<^item> \<open>copy_file\<close>: the exception that opening \<open>path\<close>, reading it to its end and
    writing its bytes into the archive raises, if any;
  \<^item> \<open>zipfile_close\<close>: the exception that closing the archive at \<open>path\<close> raises, if
    any.
\<close>

record process =
  environ :: "string \<Rightarrow> string option"
  import_pex :: "error + string"
  sys_executable :: string
  getcwd :: string
  getuser :: string
  check_output :: "string list \<Rightarrow> error + string"
  subprocess_run :: "string list \<Rightarrow> error + (int \<times> string)"
  read_text :: "string \<Rightarrow> error + string"
  find_module :: "string \<Rightarrow> error + string option"
  copytree :: "string \<Rightarrow> string \<Rightarrow> error option"
  mkdtemp :: string
  live_editable_dirs :: "string \<Rightarrow> error + string list"
  zipfile_open :: "string \<Rightarrow> error option"
  os_stat :: "string \<Rightarrow> error + int"
  copy_file :: "string \<Rightarrow> error option"
  zipfile_close :: "string \<Rightarrow> error option"

section \<open>Environment names\<close>

text \<open>
  \<^verbatim>\<open>virtual_env_path = os.environ.get(env_var_name)
  if not virtual_env_path: return 'default'
  else: return os.path.basename(virtual_env_path)\<close>
\<close>

definition get_env_name :: "process \<Rightarrow> string \<Rightarrow> string" where
  "get_env_name ctx env_var_name =
     (case environ ctx env_var_name of
        None \<Rightarrow> ''default''
      | Some virtual_env_path \<Rightarrow>
          if virtual_env_path = [] then ''default'' else basename virtual_env_path)"

text \<open>
  \<open>CondaPacker.env_name\<close> is \<open>pathlib.Path(sys.executable).parents[1].name\<close>. A
  pure POSIX path keeps the components that are neither empty nor \<open>'.'\<close>; it has as
  many parents as components, \<open>parents[1]\<close> drops the last two components and raises
  \<open>IndexError\<close> when there are fewer, and \<open>name\<close> is the last component left, or
  the empty string.
\<close>

definition path_parts :: "string \<Rightarrow> string list" where
  "path_parts s = filter (\<lambda>c. c \<noteq> [] \<and> c \<noteq> ''.'') (split_on (CHR ''/'') s)"

definition conda_env_name :: "process \<Rightarrow> error + string" where
  "conda_env_name ctx =
     (let parts = path_parts (sys_executable ctx); n = length parts
      in if n < 2 then Inl IndexError
         else if n = 2 then Inr []
         else Inr (parts ! (n - 3)))"

fun env_name :: "process \<Rightarrow> packer \<Rightarrow> error + string" where
  "env_name ctx CONDA_PACKER = conda_env_name ctx"
| "env_name ctx PEX_PACKER = Inr (get_env_name ctx ''VIRTUAL_ENV'')"

section \<open>Running from a pex\<close>

text \<open>
  \<open>_running_from_pex\<close>:
  \<^verbatim>\<open>if "PEX" in os.environ: return True
  try:
      import _pex
      return True
  except ModuleNotFoundError:
      return False\<close>
  Any other exception of the import is not caught.
\<close>

definition running_from_pex :: "process \<Rightarrow> error + bool" where
  "running_from_pex ctx =
     (if environ ctx ''PEX'' \<noteq> None then Inr True
      else case import_pex ctx of
             Inr file \<Rightarrow> Inr True
           | Inl e \<Rightarrow> if e = ModuleNotFoundError then Inr False else Inl e)"

text \<open>
  \<open>get_current_pex_filepath\<close>:
  \<^verbatim>\<open>if "PEX" in os.environ: return os.environ["PEX"]
  try:
      import _pex
      return os.path.abspath(os.path.dirname(os.path.dirname(os.path.dirname(_pex.__file__))))
  except ModuleNotFoundError:
      raise RuntimeError("Trying to get current pex file path while not running from PEX")\<close>
\<close>

definition get_current_pex_filepath :: "process \<Rightarrow> error + string" where
  "get_current_pex_filepath ctx =
     (case environ ctx ''PEX'' of
        Some v \<Rightarrow> Inr v
      | None \<Rightarrow>
          (case import_pex ctx of
             Inr file \<Rightarrow> Inr (abspath (getcwd ctx) (dirname (dirname (dirname file))))
           | Inl e \<Rightarrow>
               if e = ModuleNotFoundError
               then Inl (RuntimeError
                      ''Trying to get current pex file path while not running from PEX'')
               else Inl e))"

definition is_conda_env :: "process \<Rightarrow> bool" where
  "is_conda_env ctx = (environ ctx ''CONDA_DEFAULT_ENV'' \<noteq> None)"

definition is_criteo :: "process \<Rightarrow> bool" where
  "is_criteo ctx = (environ ctx ''CRITEO_ENV'' \<noteq> None)"

definition detect_packer_from_env :: "process \<Rightarrow> packer" where
  "detect_packer_from_env ctx = (if is_conda_env ctx then CONDA_PACKER else PEX_PACKER)"

text \<open>
  \<^verbatim>\<open>if zip_file.endswith('.pex'): return PEX_PACKER
  elif zip_file.endswith(".zip") or zip_file.endswith(".tar.gz"): return CONDA_PACKER
  else: raise ValueError(...)\<close>
\<close>

definition detect_packer_from_file :: "string \<Rightarrow> error + packer" where
  "detect_packer_from_file zip_file =
     (if endswith zip_file ''.pex'' then Inr PEX_PACKER
      else if endswith zip_file ''.zip'' \<or> endswith zip_file ''.tar.gz''
      then Inr CONDA_PACKER
      else Inl (ValueError (''Archive format '' @ zip_file @ '' unsupported. ''
                            @ ''Must be .pex or conda .zip/.tar.gz'')))"

section \<open>\<open>detect_archive_names\<close>\<close>

text \<open>\<open>bytes.strip()\<close>: the ASCII whitespace removed at both ends.\<close>

definition is_space :: "char \<Rightarrow> bool" where
  "is_space c = (c \<in> set [CHR '' '', CHR 0x09, CHR 0x0A, CHR 0x0B, CHR 0x0C, CHR 0x0D])"

definition strip :: "string \<Rightarrow> string" where
  "strip s = rev (dropWhile is_space (rev (dropWhile is_space s)))"

text \<open>
  \<^verbatim>\<open>return subprocess.check_output("hdfs getconf -confKey fs.defaultFS".split()).strip().decode()\<close>
\<close>

definition get_default_fs :: "process \<Rightarrow> error + string" where
  "get_default_fs ctx =
     (case check_output ctx [''hdfs'', ''getconf'', ''-confKey'', ''fs.defaultFS''] of
        Inl e \<Rightarrow> Inl e
      | Inr out \<Rightarrow> Inr (strip out))"

text \<open>
  The first half of \<open>detect_archive_names\<close>: the pex file and the environment name.
  \<^verbatim>\<open>if _running_from_pex():
      pex_file = get_current_pex_filepath()
      env_name = os.path.splitext(os.path.basename(pex_file))[0]
  else:
      pex_file = ""
      env_name = packer.env_name()\<close>
\<close>

definition detect_env_name :: "process \<Rightarrow> packer \<Rightarrow> error + (string \<times> string)" where
  "detect_env_name ctx packer =
     (case running_from_pex ctx of
        Inl e \<Rightarrow> Inl e
      | Inr True \<Rightarrow>
          (case get_current_pex_filepath ctx of
             Inl e \<Rightarrow> Inl e
           | Inr pex_file \<Rightarrow> Inr (pex_file, fst (splitext (basename pex_file))))
      | Inr False \<Rightarrow>
          (case env_name ctx packer of
             Inl e \<Rightarrow> Inl e
           | Inr name \<Rightarrow> Inr ([], name)))"

text \<open>
  The second half, on the optional \<open>package_path\<close> (\<open>None\<close> by default; \<open>None\<close> and
  the empty string are the values \<open>not package_path\<close> holds for):
  \<^verbatim>\<open>if not package_path:
      package_path = (f"{get_default_fs()}/user/{getpass.getuser()}"
                      f"/envs/{env_name}.{packer.extension()}")
  else:
      if "".join(os.path.splitext(package_path)[1]) != f".{packer.extension()}":
          raise ValueError(f"{package_path} has the wrong extension"
                           f", .{packer.extension()} is expected")
  return package_path, env_name, pex_file\<close>
\<close>

definition default_package_path ::
  "process \<Rightarrow> packer \<Rightarrow> string \<Rightarrow> error + string" where
  "default_package_path ctx packer name =
     (case get_default_fs ctx of
        Inl e \<Rightarrow> Inl e
      | Inr default_fs \<Rightarrow>
          Inr (default_fs @ ''/user/'' @ getuser ctx @ ''/envs/'' @ name
                 @ ''.'' @ extension packer))"

definition check_package_path :: "packer \<Rightarrow> string \<Rightarrow> error + string" where
  "check_package_path packer package_path =
     (if snd (splitext package_path) \<noteq> ''.'' @ extension packer
      then Inl (ValueError (package_path @ '' has the wrong extension''
                            @ '', .'' @ extension packer @ '' is expected''))
      else Inr package_path)"

definition detect_archive_names ::
  "process \<Rightarrow> packer \<Rightarrow> string option \<Rightarrow> error + (string \<times> string \<times> string)" where
  "detect_archive_names ctx packer package_path =
     (case detect_env_name ctx packer of
        Inl e \<Rightarrow> Inl e
      | Inr (pex_file, name) \<Rightarrow>
          (case (if package_path = None \<or> package_path = Some []
                 then default_package_path ctx packer name
                 else check_package_path packer (the package_path)) of
             Inl e \<Rightarrow> Inl e
           | Inr path \<Rightarrow> Inr (path, name, pex_file)))"

section \<open>\<open>pack_in_pex\<close>\<close>

text \<open>
  The copies of the editable packages into the temporary directory:
  \<^verbatim>\<open>for current_package in editable_requirements.values():
      shutil.copytree(current_package,
                      os.path.join(tempdir, os.path.basename(current_package)))\<close>
\<close>

fun copy_editable :: "process \<Rightarrow> string \<Rightarrow> string list \<Rightarrow> error option" where
  "copy_editable ctx tempdir [] = None"
| "copy_editable ctx tempdir (current_package # rest) =
     (case copytree ctx current_package (join tempdir [basename current_package]) of
        Some e \<Rightarrow> Some e
      | None \<Rightarrow> copy_editable ctx tempdir rest)"

text \<open>
  The command \<open>pack_in_pex\<close> assembles, in the order of the source:
  \<^verbatim>\<open>cmd = ["pex", f"--inherit-path={pex_inherit_path}"]
  if editable_requirements and len(editable_requirements) > 0:
      ...
      cmd.append(f"--sources-directory={tempdir}")
  for req in requirements: ...
  if _is_criteo(): cmd.append(f"--index-url={CRITEO_PYPI_URL}")
  cmd.extend(["-o", output])\<close>
\<close>

definition CRITEO_PYPI_URL :: string where
  "CRITEO_PYPI_URL = ''http://build-nexus.prod.crto.in/repository/moab.pypi/simple''"

definition pex_command ::
  "process \<Rightarrow> string list \<Rightarrow> string \<Rightarrow> string list \<Rightarrow> string
     \<Rightarrow> (string \<times> string) list \<Rightarrow> string list" where
  "pex_command ctx requirements output ignored_packages pex_inherit_path editable_requirements =
     (let cmd = [''pex'', ''--inherit-path='' @ pex_inherit_path];
          cmd = (if editable_requirements \<noteq> []
                 then cmd @ [''--sources-directory='' @ mkdtemp ctx] else cmd);
          cmd = add_requirements cmd ignored_packages requirements;
          cmd = (if is_criteo ctx then cmd @ [''--index-url='' @ CRITEO_PYPI_URL] else cmd)
      in cmd @ [''-o'', output])"

text \<open>
  \<open>bytes.decode("ascii")\<close> raises \<open>UnicodeDecodeError\<close> on a byte above 127.
\<close>

definition is_ascii :: "string \<Rightarrow> bool" where
  "is_ascii bytes = list_all (\<lambda>c. of_char c < (128 :: nat)) bytes"

text \<open>
  \<open>pack_in_pex\<close> runs the command and returns \<open>output\<close>:
  \<^verbatim>\<open>try:
      call = subprocess.run(cmd, stderr=subprocess.PIPE, stdout=subprocess.PIPE)
      call.check_returncode()
  except CalledProcessError as err:
      _logger.exception('Cannot create pex')
      _logger.exception(err.stderr.decode("ascii"))
      raise
  return output\<close>
  An exception of \<open>subprocess.run\<close> itself is no \<open>CalledProcessError\<close> (the call has
  no \<open>check\<close>) and passes through. On a return code other than zero
  \<open>check_returncode\<close> raises \<open>CalledProcessError\<close>; the handler decodes the standard
  error before it re-raises, so the \<open>UnicodeDecodeError\<close> of the decoding replaces
  the \<open>CalledProcessError\<close> when the standard error is not ASCII.
\<close>

definition pack_in_pex ::
  "process \<Rightarrow> string list \<Rightarrow> string \<Rightarrow> string list \<Rightarrow> string
     \<Rightarrow> (string \<times> string) list \<Rightarrow> error + string" where
  "pack_in_pex ctx requirements output ignored_packages pex_inherit_path editable_requirements =
     (case copy_editable ctx (mkdtemp ctx) (map snd editable_requirements) of
        Some e \<Rightarrow> Inl e
      | None \<Rightarrow>
          (case subprocess_run ctx
                  (pex_command ctx requirements output ignored_packages pex_inherit_path
                     editable_requirements) of
             Inl e \<Rightarrow> Inl e
           | Inr (returncode, stderr) \<Rightarrow>
               if returncode \<noteq> 0
               then (if is_ascii stderr then Inl CalledProcessError else Inl UnicodeDecodeError)
               else Inr output))"

section \<open>\<open>_get_packages\<close>\<close>

text \<open>The values \<open>json.loads\<close> returns.\<close>

datatype json =
    JNull
  | JBool bool
  | JNumber int
  | JString string
  | JArray "json list"
  | JObject "(string \<times> json) list"





section \<open>\<open>get_editable_requirements\<close>\<close>

text \<open>
  \<open>str.splitlines()\<close>: a line ends at \<open>\r\n\<close> or at one of the line boundaries
  below (the boundaries among the code points a \<open>char\<close> holds); the text after the
  last boundary is a line when it is not empty.
\<close>

definition is_line_boundary :: "char \<Rightarrow> bool" where
  "is_line_boundary c =
     (c \<in> set [CHR 0x0A, CHR 0x0B, CHR 0x0C, CHR 0x0D, CHR 0x1C, CHR 0x1D, CHR 0x1E, CHR 0x85])"

fun splitlines_from :: "string \<Rightarrow> string \<Rightarrow> string list" where
  "splitlines_from line [] = (if line = [] then [] else [line])"
| "splitlines_from line [c] = (if is_line_boundary c then [line] else [line @ [c]])"
| "splitlines_from line (c # d # cs) =
     (if c = CHR 0x0D \<and> d = CHR 0x0A then line # splitlines_from [] cs
      else if is_line_boundary c then line # splitlines_from [] (d # cs)
      else splitlines_from (line @ [c]) (d # cs))"

definition splitlines :: "string \<Rightarrow> string list" where
  "splitlines s = splitlines_from [] s"

text \<open>A \<open>dict\<close> is an association list in insertion order; \<open>d[k] = v\<close>:\<close>

fun dict_set :: "'k \<Rightarrow> 'v \<Rightarrow> ('k \<times> 'v) list \<Rightarrow> ('k \<times> 'v) list" where
  "dict_set k v [] = [(k, v)]"
| "dict_set k v ((k', v') # d) =
     (if k = k' then (k, v) # d else (k', v') # dict_set k v d)"

definition EDITABLE_PACKAGES_INDEX :: string where
  "EDITABLE_PACKAGES_INDEX = ''editable_packages_index''"

text \<open>
  The loop over the package names of the index file; \<open>ModuleNotFoundError\<close> is a
  subclass of \<open>ImportError\<close>, so the handler catches both. Where \<open>path\<close> is \<open>None\<close>,
  \<open>os.path.basename(path)\<close> raises \<open>TypeError\<close>, which the handler does not catch:
  \<^verbatim>\<open>for package_name in package_names:
      try:
          _, path, _ = imp.find_module(package_name)
          editable_requirements[os.path.basename(path)] = path
      except ImportError:
          _logger.error(...)\<close>
\<close>

fun find_editable ::
  "process \<Rightarrow> (string \<times> string) list \<Rightarrow> string list \<Rightarrow> error + (string \<times> string) list" where
  "find_editable ctx editable_requirements [] = Inr editable_requirements"
| "find_editable ctx editable_requirements (package_name # package_names) =
     (case find_module ctx package_name of
        Inr (Some path) \<Rightarrow>
          find_editable ctx (dict_set (basename path) path editable_requirements) package_names
      | Inr None \<Rightarrow> Inl TypeError
      | Inl e \<Rightarrow>
          if e = ImportError \<or> e = ModuleNotFoundError
          then find_editable ctx editable_requirements package_names
          else Inl e)"

text \<open>
  \<^verbatim>\<open>editable_requirements = {}
  if _running_from_pex():
      try:
          package_names = open(
              f"{editable_packages_dir}/{EDITABLE_PACKAGES_INDEX}").read().splitlines()
      except FileNotFoundError:
          editable_requirements = {}
      else:
          for package_name in package_names: ...
  else:
      editable_requirements = {os.path.basename(requirement_dir): requirement_dir
                               for requirement_dir in _get_editable_requirements(executable)}
  return editable_requirements\<close>
\<close>

definition get_editable_requirements ::
  "process \<Rightarrow> string \<Rightarrow> string \<Rightarrow> error + (string \<times> string) list" where
  "get_editable_requirements ctx executable editable_packages_dir =
     (case running_from_pex ctx of
        Inl e \<Rightarrow> Inl e
      | Inr True \<Rightarrow>
          (case read_text ctx (editable_packages_dir @ ''/'' @ EDITABLE_PACKAGES_INDEX) of
             Inl e \<Rightarrow> if e = FileNotFoundError then Inr [] else Inl e
           | Inr content \<Rightarrow> find_editable ctx [] (splitlines content))
      | Inr False \<Rightarrow>
          (case live_editable_dirs ctx executable of
             Inl e \<Rightarrow> Inl e
           | Inr dirs \<Rightarrow>
               Inr (foldl (\<lambda>d requirement_dir.
                      dict_set (basename requirement_dir) requirement_dir d) [] dirs)))"

section \<open>\<open>zip_path\<close>\<close>










text \<open>
  The names \<open>os.walk\<close> can meet in a directory: not empty, without a separator or a
  null byte, and neither \<open>.\<close> nor \<open>..\<close>.
\<close>

definition valid_name :: "string \<Rightarrow> bool" where
  "valid_name n =
     (n \<noteq> [] \<and> CHR ''/'' \<notin> set n \<and> CHR 0x00 \<notin> set n \<and> n \<noteq> ''.'' \<and> n \<noteq> ''..'')"




section \<open>The freshness check\<close>

text \<open>
  The remote file system as the check reads it: the content of each file that exists.
\<close>

type_synonym filesystem = "string \<Rightarrow> string option"

text \<open>
  Modelled from the spec: \<open>_get_archive_metadata_path\<close> is not among the source
  files (only its tests are). The spec: ``given archive path \<open>P\<close> with extension
  \<open>.ext\<close>, metadata path = same path with extension replaced by \<open>.json\<close>''.
\<close>

definition get_archive_metadata_path :: "string \<Rightarrow> string" where
  "get_archive_metadata_path package_path = fst (splitext package_path) @ ''.json''"

text \<open>
  Python's \<open>==\<close> on two \<open>dict\<close>s: the same number of keys, and every key of the first
  is a key of the second with an equal value.
\<close>

definition dict_eq :: "('k \<times> 'v) list \<Rightarrow> ('k \<times> 'v) list \<Rightarrow> bool" where
  "dict_eq a b = (length a = length b \<and> list_all (\<lambda>kv. map_of b (fst kv) = Some (snd kv)) a)"

text \<open>
  Modelled from the spec: \<open>_is_archive_up_to_date\<close> is not among the source files
  (only its tests are). The spec: ``fails fast to \<open>false\<close> if the archive file does
  not exist, or if its metadata file does not exist. Otherwise parses metadata JSON
  into a mapping and returns \<open>true\<close> iff it is exactly equal (same key set, same
  version string per key) to \<open>current_requirements\<close>''; metadata that is not valid JSON
  is a \<open>MetadataParseError\<close>, propagated. A document that is not an object is not
  equal to a mapping.
\<close>

definition is_archive_up_to_date ::
  "(string \<Rightarrow> json option) \<Rightarrow> filesystem \<Rightarrow> string \<Rightarrow> (string \<times> string) list
     \<Rightarrow> error + bool" where
  "is_archive_up_to_date loads fs package_path current_requirements =
     (if fs package_path = None then Inr False
      else case fs (get_archive_metadata_path package_path) of
             None \<Rightarrow> Inr False
           | Some content \<Rightarrow>
               (case loads content of
                  None \<Rightarrow> Inl (JSONDecodeError content)
                | Some (JObject metadata) \<Rightarrow>
                    Inr (dict_eq metadata
                           (map (\<lambda>kv. (fst kv, JString (snd kv))) current_requirements))
                | Some other \<Rightarrow> Inr False))"

section \<open>A process for the examples\<close>

text \<open>
  A process outside any pex and any virtual environment, whose programs all fail and
  whose files can all be read and were all modified in 2020; the examples below
  change the fields they are about.
\<close>

definition example_process :: process where
  "example_process =
     \<lparr>environ = Map.empty,
      import_pex = Inl ModuleNotFoundError,
      sys_executable = ''/opt/conda/envs/myenv/bin/python'',
      getcwd = ''/home/j.doe'',
      getuser = ''j.doe'',
      check_output = (\<lambda>cmd. Inl CalledProcessError),
      subprocess_run = (\<lambda>cmd. Inr (1, ''pex: command failed'')),
      read_text = (\<lambda>path. Inl FileNotFoundError),
      find_module = (\<lambda>name. Inl ImportError),
      copytree = (\<lambda>src dst. None),
      mkdtemp = ''/tmp/tmpdir'',
      live_editable_dirs = (\<lambda>executable. Inr []),
      zipfile_open = (\<lambda>path. None),
      os_stat = (\<lambda>path. Inr 2020),
      copy_file = (\<lambda>path. None),
      zipfile_close = (\<lambda>path. None)\<rparr>"

section \<open>Facts about strings and paths\<close>

lemma endswith_iff: "endswith s suf \<longleftrightarrow> (\<exists>z. s = z @ suf)"
proof
  assume "endswith s suf"
  then have "s = take (length s - length suf) s @ suf"
    unfolding endswith_def by (metis append_take_drop_id)
  then show "\<exists>z. s = z @ suf" ..
next
  assume "\<exists>z. s = z @ suf"
  then show "endswith s suf" by (auto simp: endswith_def)
qed

lemma rfind_absent: "c \<notin> set s \<Longrightarrow> rfind s c = - 1"
  by (simp add: rfind_def)

lemma rfind_last: "c \<notin> set b \<Longrightarrow> rfind (d @ c # b) c = int (length d)"
proof -
  assume a: "c \<notin> set b"
  then have "takeWhile (\<lambda>x. x \<noteq> c) (rev b @ c # rev d) = rev b"
    by (subst takeWhile_append2) auto
  then show ?thesis by (simp add: rfind_def)
qed

lemma rfind_cases:
  obtains (absent) "c \<notin> set s" "rfind s c = - 1"
  | (present) d b where "s = d @ c # b" "c \<notin> set b" "rfind s c = int (length d)"
proof (cases "c \<in> set s")
  case False
  then show ?thesis using absent rfind_absent by blast
next
  case True
  then obtain d b where "s = d @ c # b" "c \<notin> set b"
    using split_list_last by fastforce
  then show ?thesis using present rfind_last by blast
qed

lemma nat_int_Suc: "nat (int n + 1) = Suc n"
  by simp

lemma basename_plain: "CHR ''/'' \<notin> set b \<Longrightarrow> basename b = b"
  by (simp add: basename_def rfind_absent)

lemma basename_append: "CHR ''/'' \<notin> set b \<Longrightarrow> basename (d @ CHR ''/'' # b) = b"
  by (simp add: basename_def rfind_last nat_int_Suc del: of_nat_Suc)


lemma basename_decomp:
  "\<exists>d. p = d @ basename p \<and> (d = [] \<or> last d = CHR ''/'')"
proof (rule rfind_cases [of "CHR ''/''" p])
  assume "CHR ''/'' \<notin> set p"
  then show ?thesis by (simp add: basename_plain)
next
  fix d b assume "p = d @ CHR ''/'' # b" "CHR ''/'' \<notin> set b"
  then have "p = (d @ ''/'') @ basename p" by (simp add: basename_append)
  then show ?thesis by (metis last_snoc)
qed

lemma basename_eq_iff:
  assumes "CHR ''/'' \<notin> set b"
  shows "basename p = b \<longleftrightarrow> (\<exists>d. p = d @ b \<and> (d = [] \<or> last d = CHR ''/''))"
proof
  assume "basename p = b"
  then show "\<exists>d. p = d @ b \<and> (d = [] \<or> last d = CHR ''/'')"
    using basename_decomp [of p] by simp
next
  assume "\<exists>d. p = d @ b \<and> (d = [] \<or> last d = CHR ''/'')"
  then obtain d where d: "p = d @ b" "d = [] \<or> last d = CHR ''/''" by blast
  show "basename p = b"
  proof (cases "d = []")
    case True
    then show ?thesis using d assms by (simp add: basename_plain)
  next
    case False
    then have "d = butlast d @ ''/''" using d(2) by (metis append_butlast_last_id)
    then have "p = butlast d @ CHR ''/'' # b"
      using d(1) by (metis append_Cons append_Nil append_assoc)
    then show ?thesis using assms basename_append by metis
  qed
qed

lemma split_on_not_Nil: "split_on c s \<noteq> []"
  by (induction s) (auto split: list.splits)

lemma hd_split_on: "hd (split_on c s) = takeWhile (\<lambda>x. x \<noteq> c) s"
  by (induction s) (auto simp: split_on_not_Nil split: list.splits)

lemma not_endswith_no_decomp: "\<not> endswith f r \<Longrightarrow> \<nexists>d. f = d @ r \<and> P d"
  by (auto simp: endswith_iff)

section \<open>Strategy selection from a specification file\<close>

text \<open>
  Claim C5. \<open>detect_packer_from_spec\<close> returns the pex packer exactly for the paths
  whose last component is \<open>requirements.txt\<close>, the conda packer exactly for the other
  paths that end in \<open>.yaml\<close> or \<open>.yml\<close>, and raises \<open>ValueError\<close> exactly for the
  paths that are neither.
\<close>

theorem detect_packer_from_spec_by_filename:
  "(detect_packer_from_spec f = Inr PEX_PACKER
      \<longleftrightarrow> (\<exists>d. f = d @ ''requirements.txt'' \<and> (d = [] \<or> last d = CHR ''/'')))
   \<and> (detect_packer_from_spec f = Inr CONDA_PACKER
      \<longleftrightarrow> ((\<exists>s. f = s @ ''.yaml'') \<or> (\<exists>s. f = s @ ''.yml''))
          \<and> (\<nexists>d. f = d @ ''requirements.txt'' \<and> (d = [] \<or> last d = CHR ''/'')))
   \<and> ((\<exists>msg. detect_packer_from_spec f = Inl (ValueError msg))
      \<longleftrightarrow> (\<nexists>s. f = s @ ''.yaml'') \<and> (\<nexists>s. f = s @ ''.yml'')
          \<and> (\<nexists>d. f = d @ ''requirements.txt'' \<and> (d = [] \<or> last d = CHR ''/'')))"
proof -
  have req: "basename f = ''requirements.txt''
      \<longleftrightarrow> (\<exists>d. f = d @ ''requirements.txt'' \<and> (d = [] \<or> last d = CHR ''/''))"
    by (rule basename_eq_iff) simp
  show ?thesis
    unfolding req [symmetric] endswith_iff [symmetric]
    by (simp add: detect_packer_from_spec_def)
qed

theorem detect_packer_from_spec_by_filename_witness:
  "detect_packer_from_spec ''proj/requirements.txt'' = Inr PEX_PACKER
   \<and> detect_packer_from_spec ''conda/env.yml'' = Inr CONDA_PACKER
   \<and> (\<exists>msg. detect_packer_from_spec ''setup.py'' = Inl (ValueError msg))"
proof (intro conjI)
  note pex = detect_packer_from_spec_by_filename
    [of "''proj/requirements.txt''", THEN conjunct1]
  have "''proj/requirements.txt'' = ''proj/'' @ ''requirements.txt''
      \<and> (''proj/'' = [] \<or> last ''proj/'' = CHR ''/'')"
    by simp
  then show "detect_packer_from_spec ''proj/requirements.txt'' = Inr PEX_PACKER"
    by (intro iffD2 [OF pex] exI)
next
  note conda = detect_packer_from_spec_by_filename
    [of "''conda/env.yml''", THEN conjunct2, THEN conjunct1]
  have "\<not> endswith ''conda/env.yml'' ''requirements.txt''"
    by (simp add: endswith_def)
  moreover have "\<exists>s. ''conda/env.yml'' = s @ ''.yml''"
    by (rule exI [of _ "''conda/env''"]) simp
  ultimately show "detect_packer_from_spec ''conda/env.yml'' = Inr CONDA_PACKER"
    by (intro iffD2 [OF conda] conjI disjI2 not_endswith_no_decomp)
next
  note other = detect_packer_from_spec_by_filename
    [of "''setup.py''", THEN conjunct2, THEN conjunct2]
  have "\<not> endswith ''setup.py'' ''.yaml''" "\<not> endswith ''setup.py'' ''.yml''"
    "\<not> endswith ''setup.py'' ''requirements.txt''"
    by (simp_all add: endswith_def)
  then show "\<exists>msg. detect_packer_from_spec ''setup.py'' = Inl (ValueError msg)"
    by (intro iffD2 [OF other] conjI not_endswith_no_decomp)
      (simp_all only: endswith_iff not_False_eq_True)
qed

section \<open>Ignored packages in the pex command\<close>

lemma add_requirements_filter:
  "add_requirements cmd ign reqs =
     cmd @ filter (\<lambda>req. takeWhile (\<lambda>x. x \<noteq> CHR ''='') req \<notin> set ign) reqs"
  by (induction reqs arbitrary: cmd) (auto simp: hd_split_on Let_def)

text \<open>
  Claim C6. The command \<open>pack_in_pex\<close> runs is \<open>pex\<close> and its inherit-path option,
  the sources directory when there are editable requirements, then exactly the
  requirement strings whose package name (the text before the first \<open>=\<close>) is not
  ignored, in their order, then the index URL when \<open>CRITEO_ENV\<close> is set, then
  \<open>-o output\<close>. An ignored requirement is left out and raises nothing: the command
  is assembled for every list of requirements, and once the editable packages are
  copied \<open>pack_in_pex\<close> reaches \<open>subprocess.run\<close> on that command. What \<open>pack_in_pex\<close>
  then returns or raises is what the run of that command gives: the exception of
  \<open>subprocess.run\<close>, \<open>output\<close> on the return code zero, and otherwise
  \<open>CalledProcessError\<close>, or \<open>UnicodeDecodeError\<close> when the standard error of the
  command is not ASCII.
\<close>

theorem pex_command_drops_ignored:
  "pex_command ctx requirements output ignored_packages pex_inherit_path editable_requirements =
     [''pex'', ''--inherit-path='' @ pex_inherit_path]
     @ (if editable_requirements = [] then [] else [''--sources-directory='' @ mkdtemp ctx])
     @ filter (\<lambda>req. takeWhile (\<lambda>x. x \<noteq> CHR ''='') req \<notin> set ignored_packages) requirements
     @ (if environ ctx ''CRITEO_ENV'' = None then [] else [''--index-url='' @ CRITEO_PYPI_URL])
     @ [''-o'', output]
   \<and> pack_in_pex ctx requirements output ignored_packages pex_inherit_path editable_requirements =
       (case copy_editable ctx (mkdtemp ctx) (map snd editable_requirements) of
          Some e \<Rightarrow> Inl e
        | None \<Rightarrow>
            (case subprocess_run ctx
                    ([''pex'', ''--inherit-path='' @ pex_inherit_path]
                     @ (if editable_requirements = [] then []
                        else [''--sources-directory='' @ mkdtemp ctx])
                     @ filter (\<lambda>req. takeWhile (\<lambda>x. x \<noteq> CHR ''='') req \<notin> set ignored_packages)
                         requirements
                     @ (if environ ctx ''CRITEO_ENV'' = None then []
                        else [''--index-url='' @ CRITEO_PYPI_URL])
                     @ [''-o'', output]) of
               Inl e \<Rightarrow> Inl e
             | Inr (returncode, stderr) \<Rightarrow>
                 if returncode = 0 then Inr output
                 else if is_ascii stderr then Inl CalledProcessError
                 else Inl UnicodeDecodeError))"
proof -
  have cmd: "pex_command ctx requirements output ignored_packages pex_inherit_path
        editable_requirements =
     [''pex'', ''--inherit-path='' @ pex_inherit_path]
     @ (if editable_requirements = [] then [] else [''--sources-directory='' @ mkdtemp ctx])
     @ filter (\<lambda>req. takeWhile (\<lambda>x. x \<noteq> CHR ''='') req \<notin> set ignored_packages) requirements
     @ (if environ ctx ''CRITEO_ENV'' = None then [] else [''--index-url='' @ CRITEO_PYPI_URL])
     @ [''-o'', output]"
    by (simp add: pex_command_def add_requirements_filter is_criteo_def)
  have run: "pack_in_pex ctx requirements output ignored_packages pex_inherit_path
        editable_requirements =
       (case copy_editable ctx (mkdtemp ctx) (map snd editable_requirements) of
          Some e \<Rightarrow> Inl e
        | None \<Rightarrow>
            (case subprocess_run ctx
                    (pex_command ctx requirements output ignored_packages pex_inherit_path
                       editable_requirements) of
               Inl e \<Rightarrow> Inl e
             | Inr (returncode, stderr) \<Rightarrow>
                 if returncode = 0 then Inr output
                 else if is_ascii stderr then Inl CalledProcessError
                 else Inl UnicodeDecodeError))"
    unfolding pack_in_pex_def by (simp split: option.splits sum.splits prod.splits)
  show ?thesis
    using cmd run by (simp only:)
qed


theorem pex_command_drops_ignored_witness:
  "pex_command example_process [''a==1.0'', ''b==2.0'', ''c''] ''out.pex'' [''a'', ''c''] ''prefer'' []
     = [''pex'', ''--inherit-path=prefer'', ''b==2.0'', ''-o'', ''out.pex'']
   \<and> pack_in_pex
       (example_process\<lparr>subprocess_run :=
          (\<lambda>cmd. if cmd = [''pex'', ''--inherit-path=prefer'', ''b==2.0'', ''-o'', ''out.pex'']
                  then Inr (0, []) else Inl FileNotFoundError)\<rparr>)
       [''a==1.0'', ''b==2.0'', ''c''] ''out.pex'' [''a'', ''c''] ''prefer'' []
     = Inr ''out.pex''
   \<and> pack_in_pex example_process
       [''a==1.0'', ''b==2.0'', ''c''] ''out.pex'' [''a'', ''c''] ''prefer'' []
     = Inl CalledProcessError
   \<and> pack_in_pex (example_process\<lparr>subprocess_run := (\<lambda>cmd. Inr (1, [CHR 0xC3, CHR 0xA9]))\<rparr>)
       [''a==1.0'', ''b==2.0'', ''c''] ''out.pex'' [''a'', ''c''] ''prefer'' []
     = Inl UnicodeDecodeError"
proof (intro conjI)
  show "pex_command example_process [''a==1.0'', ''b==2.0'', ''c''] ''out.pex'' [''a'', ''c'']
      ''prefer'' []
    = [''pex'', ''--inherit-path=prefer'', ''b==2.0'', ''-o'', ''out.pex'']"
    using pex_command_drops_ignored
      [of example_process "[''a==1.0'', ''b==2.0'', ''c'']" "''out.pex''" "[''a'', ''c'']"
        "''prefer''" "[]"]
    by (simp add: example_process_def)
next
  let ?ctx = "example_process\<lparr>subprocess_run :=
          (\<lambda>cmd. if cmd = [''pex'', ''--inherit-path=prefer'', ''b==2.0'', ''-o'', ''out.pex'']
                  then Inr (0, []) else Inl FileNotFoundError)\<rparr>"
  show "pack_in_pex ?ctx [''a==1.0'', ''b==2.0'', ''c''] ''out.pex'' [''a'', ''c''] ''prefer'' []
    = Inr ''out.pex''"
    using pex_command_drops_ignored
      [of "?ctx" "[''a==1.0'', ''b==2.0'', ''c'']" "''out.pex''" "[''a'', ''c'']"
        "''prefer''" "[]"]
    by (simp add: example_process_def)
next
  show "pack_in_pex example_process [''a==1.0'', ''b==2.0'', ''c''] ''out.pex'' [''a'', ''c'']
      ''prefer'' []
    = Inl CalledProcessError"
    using pex_command_drops_ignored
      [of example_process "[''a==1.0'', ''b==2.0'', ''c'']" "''out.pex''" "[''a'', ''c'']"
        "''prefer''" "[]"]
    by (simp add: example_process_def is_ascii_def)
next
  let ?ctx = "example_process\<lparr>subprocess_run := (\<lambda>cmd. Inr (1, [CHR 0xC3, CHR 0xA9]))\<rparr>"
  show "pack_in_pex ?ctx [''a==1.0'', ''b==2.0'', ''c''] ''out.pex'' [''a'', ''c''] ''prefer'' []
    = Inl UnicodeDecodeError"
    using pex_command_drops_ignored
      [of "?ctx" "[''a==1.0'', ''b==2.0'', ''c'']" "''out.pex''" "[''a'', ''c'']"
        "''prefer''" "[]"]
    by (simp add: example_process_def is_ascii_def)
qed

section \<open>Facts about \<open>splitext\<close>\<close>

lemma splitext_loop_cases:
  "splitext_loop p i d = (p, []) \<or> splitext_loop p i d = (take (nat d) p, drop (nat d) p)"
proof (induction p i d rule: splitext_loop.induct)
  case (1 p i d)
  then show ?case by (subst (1 2) splitext_loop.simps) auto
qed

lemma splitext_ext_cases:
  "snd (splitext p) = [] \<or> (\<exists>b. snd (splitext p) = CHR ''.'' # b \<and> CHR ''.'' \<notin> set b)"
proof (rule rfind_cases [of "CHR ''.''" p])
  assume "rfind p (CHR ''.'') = - 1"
  moreover have "- 1 \<le> rfind p (CHR ''/'')"
    by (rule rfind_cases [of "CHR ''/''" p]) auto
  ultimately show ?thesis by (simp add: splitext_def Let_def)
next
  fix a b assume p: "p = a @ CHR ''.'' # b" "CHR ''.'' \<notin> set b"
    and r: "rfind p (CHR ''.'') = int (length a)"
  have "drop (length a) p = CHR ''.'' # b" using p by simp
  then show ?thesis
    using splitext_loop_cases [of p "rfind p (CHR ''/'') + 1" "int (length a)"] p(2) r
    by (auto simp: splitext_def Let_def)
qed

lemma splitext_loop_found:
  assumes "0 \<le> i" "nat d \<le> length p" "\<exists>j. i \<le> j \<and> j < d \<and> p ! nat j \<noteq> CHR ''.''"
  shows "splitext_loop p i d = (take (nat d) p, drop (nat d) p)"
  using assms
proof (induction p i d rule: splitext_loop.induct)
  case (1 p i d)
  from "1.prems" obtain j where j: "i \<le> j" "j < d" "p ! nat j \<noteq> CHR ''.''" by blast
  then have id: "i < d" by simp
  have len: "nat i < length p" using id "1.prems"(1,2) by linarith
  have one: "take 1 (drop (nat i) p) = [p ! nat i]"
    using len by (simp add: Cons_nth_drop_Suc [symmetric])
  show ?case
  proof (cases "p ! nat i = CHR ''.''")
    case False
    then show ?thesis using id one by (subst splitext_loop.simps) simp
  next
    case True
    then have "j \<noteq> i" using j(3) by auto
    then have "i + 1 \<le> j" using j(1) by simp
    then have "\<exists>j. i + 1 \<le> j \<and> j < d \<and> p ! nat j \<noteq> CHR ''.''" using j(2,3) by blast
    then have "splitext_loop p (i + 1) d = (take (nat d) p, drop (nat d) p)"
      using "1.IH" id one True "1.prems"(1,2) by simp
    then show ?thesis using id one True by (subst splitext_loop.simps) simp
  qed
qed

lemma splitext_loop_found_nat:
  assumes "0 \<le> i" "n \<le> length p" "\<exists>j. i \<le> j \<and> j < int n \<and> p ! nat j \<noteq> CHR ''.''"
  shows "splitext_loop p i (int n) = (take n p, drop n p)"
  using splitext_loop_found [of i "int n" p] assms by simp

lemma splitext_stem_dir:
  assumes "CHR ''/'' \<notin> set stem" "\<exists>c\<in>set stem. c \<noteq> CHR ''.''"
    and "CHR ''.'' \<notin> set ext" "CHR ''/'' \<notin> set ext"
  shows "splitext (d @ CHR ''/'' # stem @ CHR ''.'' # ext)
           = (d @ CHR ''/'' # stem, CHR ''.'' # ext)"
proof -
  from assms(2) obtain k where k: "k < length stem" "stem ! k \<noteq> CHR ''.''"
    by (metis in_set_conv_nth)
  let ?a = "d @ CHR ''/'' # stem"
  let ?p = "?a @ CHR ''.'' # ext"
  have dot: "rfind ?p (CHR ''.'') = int (length ?a)"
    using assms(3) by (rule rfind_last)
  have sep: "rfind ?p (CHR ''/'') = int (length d)"
    using rfind_last [of "CHR ''/''" "stem @ CHR ''.'' # ext" d] assms(1,4) by simp
  have nth: "?p ! nat (int (length d) + 1 + int k) = stem ! k"
    using k(1) by (simp add: nth_append nat_add_distrib)
  have "\<exists>j. int (length d) + 1 \<le> j \<and> j < int (length ?a) \<and> ?p ! nat j \<noteq> CHR ''.''"
    using k nth by (intro exI [of _ "int (length d) + 1 + int k"]) simp
  then have "splitext_loop ?p (int (length d) + 1) (int (length ?a))
          = (take (length ?a) ?p, drop (length ?a) ?p)"
    by (intro splitext_loop_found_nat) simp_all
  moreover have "int (length d) < int (length ?a)" by simp
  ultimately have "splitext ?p = (take (length ?a) ?p, drop (length ?a) ?p)"
    unfolding splitext_def Let_def dot sep by (simp only: if_True)
  then show ?thesis by simp
qed

lemma splitext_stem_plain:
  assumes "CHR ''/'' \<notin> set stem" "\<exists>c\<in>set stem. c \<noteq> CHR ''.''"
    and "CHR ''.'' \<notin> set ext" "CHR ''/'' \<notin> set ext"
  shows "splitext (stem @ CHR ''.'' # ext) = (stem, CHR ''.'' # ext)"
proof -
  from assms(2) obtain k where k: "k < length stem" "stem ! k \<noteq> CHR ''.''"
    by (metis in_set_conv_nth)
  let ?q = "stem @ CHR ''.'' # ext"
  have dot: "rfind ?q (CHR ''.'') = int (length stem)"
    using assms(3) by (rule rfind_last)
  have sep: "rfind ?q (CHR ''/'') = - 1"
    using assms(1,4) by (simp add: rfind_absent)
  have nth: "?q ! nat (int k) = stem ! k"
    using k(1) by (simp add: nth_append)
  have "\<exists>j. 0 \<le> j \<and> j < int (length stem) \<and> ?q ! nat j \<noteq> CHR ''.''"
    using k nth by (intro exI [of _ "int k"]) simp
  then have "splitext_loop ?q 0 (int (length stem))
          = (take (length stem) ?q, drop (length stem) ?q)"
    by (intro splitext_loop_found_nat) simp_all
  then show ?thesis
    unfolding splitext_def Let_def dot sep by simp
qed

lemma stem_of_pex_file:
  assumes "d = [] \<or> last d = CHR ''/''"
    and "CHR ''/'' \<notin> set stem" "\<exists>c\<in>set stem. c \<noteq> CHR ''.''"
    and "CHR ''.'' \<notin> set ext" "CHR ''/'' \<notin> set ext"
  shows "fst (splitext (basename (d @ stem @ CHR ''.'' # ext))) = stem"
proof -
  have "CHR ''/'' \<notin> set (stem @ CHR ''.'' # ext)" using assms(2,5) by simp
  then have "basename (d @ stem @ CHR ''.'' # ext) = stem @ CHR ''.'' # ext"
    using assms(1) basename_eq_iff by blast
  then show ?thesis using splitext_stem_plain [OF assms(2-5)] by simp
qed

section \<open>Self-detection\<close>

text \<open>
  Claim C8. Outside a pex (no \<open>PEX\<close> variable, and \<open>import _pex\<close> raises
  \<open>ModuleNotFoundError\<close>) \<open>get_current_pex_filepath\<close> raises \<open>RuntimeError\<close> while
  \<open>_running_from_pex\<close> raises nothing and returns \<open>False\<close>; when the \<open>PEX\<close>
  variable is set, \<open>get_current_pex_filepath\<close> returns its value, whatever the
  import would do.
\<close>

theorem pex_self_detection:
  "(environ ctx ''PEX'' = None \<and> import_pex ctx = Inl ModuleNotFoundError
      \<longrightarrow> (\<exists>msg. get_current_pex_filepath ctx = Inl (RuntimeError msg))
          \<and> running_from_pex ctx = Inr False)
   \<and> (environ ctx ''PEX'' = Some v
      \<longrightarrow> get_current_pex_filepath ctx = Inr v \<and> running_from_pex ctx = Inr True)"
  by (simp add: get_current_pex_filepath_def running_from_pex_def)

theorem pex_self_detection_witness:
  "(\<exists>msg. get_current_pex_filepath example_process = Inl (RuntimeError msg))
   \<and> running_from_pex example_process = Inr False
   \<and> get_current_pex_filepath
        (example_process\<lparr>environ := [''PEX'' \<mapsto> ''/home/j.doe/myapp.pex'']\<rparr>)
       = Inr ''/home/j.doe/myapp.pex''
   \<and> running_from_pex (example_process\<lparr>environ := [''PEX'' \<mapsto> ''/home/j.doe/myapp.pex'']\<rparr>)
       = Inr True"
proof -
  have a: "environ example_process ''PEX'' = None
      \<and> import_pex example_process = Inl ModuleNotFoundError"
    by (simp add: example_process_def)
  have b: "environ (example_process\<lparr>environ := [''PEX'' \<mapsto> ''/home/j.doe/myapp.pex'']\<rparr>) ''PEX''
      = Some ''/home/j.doe/myapp.pex''"
    by simp
  show ?thesis
    using pex_self_detection [of example_process, THEN conjunct1, rule_format, OF a]
      pex_self_detection [of "example_process\<lparr>environ := [''PEX'' \<mapsto> ''/home/j.doe/myapp.pex'']\<rparr>"
        "''/home/j.doe/myapp.pex''", THEN conjunct2, rule_format, OF b]
    by (intro conjI) (erule conjunct1 conjunct2)+
qed

section \<open>Environment names\<close>

lemma running_from_pex_filepath:
  "running_from_pex ctx = Inr True \<Longrightarrow> \<exists>pf. get_current_pex_filepath ctx = Inr pf"
  by (auto simp: running_from_pex_def get_current_pex_filepath_def
      split: sum.splits if_splits option.splits)

lemma detect_archive_names_env:
  "detect_archive_names ctx packer package_path = Inr (path, name, pf)
     \<Longrightarrow> detect_env_name ctx packer = Inr (pf, name)"
  by (auto simp: detect_archive_names_def split: sum.splits prod.splits)

text \<open>
  Claim C3. In a pex, the environment name \<open>detect_archive_names\<close> returns is the
  stem of the pex file's name (its last component without its extension:
  \<open>myapp\<close> for \<open>/home/j.doe/myapp.pex\<close>) and the pex file is returned with it;
  outside a pex, it is the packer's \<open>env_name\<close>, and the pex file is empty. This
  holds of the triple returned for an explicit path with the packer's extension and
  of the triple returned for the default path, and an exception of the packer's
  \<open>env_name\<close> is raised by \<open>detect_archive_names\<close>. The pex packer's \<open>env_name\<close> is
  \<open>get_env_name('VIRTUAL_ENV')\<close>, the basename of the variable's value, or \<open>default\<close>
  when the variable is absent or empty.
\<close>

theorem env_name_derivation:
  "(running_from_pex ctx = Inr True
      \<longrightarrow> (\<exists>pf. get_current_pex_filepath ctx = Inr pf
            \<and> detect_env_name ctx packer = Inr (pf, fst (splitext (basename pf)))
            \<and> (p \<noteq> [] \<and> snd (splitext p) = ''.'' @ extension packer
                \<longrightarrow> detect_archive_names ctx packer (Some p)
                      = Inr (p, fst (splitext (basename pf)), pf))
            \<and> (get_default_fs ctx = Inr fs
                \<longrightarrow> detect_archive_names ctx packer None
                      = Inr (fs @ ''/user/'' @ getuser ctx @ ''/envs/''
                               @ fst (splitext (basename pf)) @ ''.'' @ extension packer,
                             fst (splitext (basename pf)), pf))))
   \<and> ((d = [] \<or> last d = CHR ''/'') \<and> CHR ''/'' \<notin> set stem \<and> (\<exists>c\<in>set stem. c \<noteq> CHR ''.'')
        \<and> CHR ''.'' \<notin> set ext \<and> CHR ''/'' \<notin> set ext
      \<longrightarrow> fst (splitext (basename (d @ stem @ CHR ''.'' # ext))) = stem)
   \<and> (running_from_pex ctx = Inr False
      \<longrightarrow> (\<forall>name. env_name ctx packer = Inr name
             \<longrightarrow> detect_env_name ctx packer = Inr ([], name)
                 \<and> (p \<noteq> [] \<and> snd (splitext p) = ''.'' @ extension packer
                     \<longrightarrow> detect_archive_names ctx packer (Some p) = Inr (p, name, []))
                 \<and> (get_default_fs ctx = Inr fs
                     \<longrightarrow> detect_archive_names ctx packer None
                           = Inr (fs @ ''/user/'' @ getuser ctx @ ''/envs/'' @ name
                                    @ ''.'' @ extension packer,
                                  name, [])))
          \<and> (\<forall>e. env_name ctx packer = Inl e
               \<longrightarrow> detect_env_name ctx packer = Inl e
                   \<and> detect_archive_names ctx packer package_path = Inl e))
   \<and> (\<forall>path name pf. detect_archive_names ctx packer package_path = Inr (path, name, pf)
      \<longrightarrow> detect_env_name ctx packer = Inr (pf, name))
   \<and> env_name ctx PEX_PACKER = Inr (get_env_name ctx ''VIRTUAL_ENV'')
   \<and> (environ ctx var = Some val \<and> val \<noteq> [] \<longrightarrow> get_env_name ctx var = basename val)
   \<and> (environ ctx var = None \<or> environ ctx var = Some [] \<longrightarrow> get_env_name ctx var = ''default'')"
proof (intro conjI impI allI)
  assume r: "running_from_pex ctx = Inr True"
  then obtain pf where pf: "get_current_pex_filepath ctx = Inr pf"
    using running_from_pex_filepath by blast
  then have env: "detect_env_name ctx packer = Inr (pf, fst (splitext (basename pf)))"
    using r by (simp add: detect_env_name_def)
  have explicit: "p \<noteq> [] \<and> snd (splitext p) = ''.'' @ extension packer
      \<longrightarrow> detect_archive_names ctx packer (Some p) = Inr (p, fst (splitext (basename pf)), pf)"
    by (simp add: detect_archive_names_def env check_package_path_def)
  have default: "get_default_fs ctx = Inr fs
      \<longrightarrow> detect_archive_names ctx packer None
            = Inr (fs @ ''/user/'' @ getuser ctx @ ''/envs/''
                     @ fst (splitext (basename pf)) @ ''.'' @ extension packer,
                   fst (splitext (basename pf)), pf)"
    by (simp add: detect_archive_names_def env default_package_path_def)
  show "\<exists>pf. get_current_pex_filepath ctx = Inr pf
      \<and> detect_env_name ctx packer = Inr (pf, fst (splitext (basename pf)))
      \<and> (p \<noteq> [] \<and> snd (splitext p) = ''.'' @ extension packer
          \<longrightarrow> detect_archive_names ctx packer (Some p)
                = Inr (p, fst (splitext (basename pf)), pf))
      \<and> (get_default_fs ctx = Inr fs
          \<longrightarrow> detect_archive_names ctx packer None
                = Inr (fs @ ''/user/'' @ getuser ctx @ ''/envs/''
                         @ fst (splitext (basename pf)) @ ''.'' @ extension packer,
                       fst (splitext (basename pf)), pf))"
    using pf env explicit default by blast
next
  assume "(d = [] \<or> last d = CHR ''/'') \<and> CHR ''/'' \<notin> set stem \<and> (\<exists>c\<in>set stem. c \<noteq> CHR ''.'')
        \<and> CHR ''.'' \<notin> set ext \<and> CHR ''/'' \<notin> set ext"
  then show "fst (splitext (basename (d @ stem @ CHR ''.'' # ext))) = stem"
    using stem_of_pex_file by blast
next
  fix name
  assume "running_from_pex ctx = Inr False" "env_name ctx packer = Inr name"
  then show "detect_env_name ctx packer = Inr ([], name)"
    by (simp add: detect_env_name_def)
next
  fix name
  assume "running_from_pex ctx = Inr False" "env_name ctx packer = Inr name"
    and "p \<noteq> [] \<and> snd (splitext p) = ''.'' @ extension packer"
  then show "detect_archive_names ctx packer (Some p) = Inr (p, name, [])"
    by (simp add: detect_archive_names_def detect_env_name_def check_package_path_def)
next
  fix name
  assume "running_from_pex ctx = Inr False" "env_name ctx packer = Inr name"
    and "get_default_fs ctx = Inr fs"
  then show "detect_archive_names ctx packer None
      = Inr (fs @ ''/user/'' @ getuser ctx @ ''/envs/'' @ name @ ''.'' @ extension packer,
             name, [])"
    by (simp add: detect_archive_names_def detect_env_name_def default_package_path_def)
next
  fix e
  assume "running_from_pex ctx = Inr False" "env_name ctx packer = Inl e"
  then show "detect_env_name ctx packer = Inl e"
    by (simp add: detect_env_name_def)
next
  fix e
  assume "running_from_pex ctx = Inr False" "env_name ctx packer = Inl e"
  then show "detect_archive_names ctx packer package_path = Inl e"
    by (simp add: detect_archive_names_def detect_env_name_def)
next
  fix path name pf
  assume "detect_archive_names ctx packer package_path = Inr (path, name, pf)"
  then show "detect_env_name ctx packer = Inr (pf, name)" by (rule detect_archive_names_env)
next
  show "env_name ctx PEX_PACKER = Inr (get_env_name ctx ''VIRTUAL_ENV'')" by simp
next
  assume "environ ctx var = Some val \<and> val \<noteq> []"
  then show "get_env_name ctx var = basename val" by (simp add: get_env_name_def)
next
  assume "environ ctx var = None \<or> environ ctx var = Some []"
  then show "get_env_name ctx var = ''default''" by (auto simp: get_env_name_def)
qed

theorem env_name_derivation_witness:
  "detect_archive_names (example_process\<lparr>environ := [''PEX'' \<mapsto> ''/home/j.doe/myapp.pex'']\<rparr>)
     PEX_PACKER (Some ''/user/j.doe/blah.pex'')
     = Inr (''/user/j.doe/blah.pex'', ''myapp'', ''/home/j.doe/myapp.pex'')
   \<and> detect_archive_names
       (example_process\<lparr>environ := [''PEX'' \<mapsto> ''/home/j.doe/myapp.pex''],
                        check_output := (\<lambda>cmd. Inr ''hdfs://root'')\<rparr>)
       CONDA_PACKER None
     = Inr (''hdfs://root/user/j.doe/envs/myapp.tar.gz'', ''myapp'', ''/home/j.doe/myapp.pex'')
   \<and> detect_archive_names
       (example_process\<lparr>environ := [''VIRTUAL_ENV'' \<mapsto> ''/path/to/my_venv'']\<rparr>)
       PEX_PACKER (Some ''/user/j.doe/my_venv.pex'')
     = Inr (''/user/j.doe/my_venv.pex'', ''my_venv'', [])
   \<and> detect_archive_names (example_process\<lparr>check_output := (\<lambda>cmd. Inr ''hdfs://root'')\<rparr>)
       CONDA_PACKER None
     = Inr (''hdfs://root/user/j.doe/envs/myenv.tar.gz'', ''myenv'', [])
   \<and> get_env_name (example_process\<lparr>environ := [''VARNAME'' \<mapsto> ''/path/to/my_venv'']\<rparr>) ''VARNAME''
     = ''my_venv''
   \<and> get_env_name example_process ''VARNAME'' = ''default''"
proof (intro conjI)
  let ?ctx = "example_process\<lparr>environ := [''PEX'' \<mapsto> ''/home/j.doe/myapp.pex'']\<rparr>"
  note th = env_name_derivation [where ctx = "?ctx" and packer = PEX_PACKER
      and d = "''/home/j.doe/''" and stem = "''myapp''" and ext = "''pex''"
      and p = "''/user/j.doe/blah.pex''"]
  have run: "running_from_pex ?ctx = Inr True" by (simp add: running_from_pex_def)
  have pexfile: "get_current_pex_filepath ?ctx = Inr ''/home/j.doe/myapp.pex''"
    by (simp add: get_current_pex_filepath_def)
  have "(''/home/j.doe/'' = [] \<or> last ''/home/j.doe/'' = CHR ''/'') \<and> CHR ''/'' \<notin> set ''myapp''
      \<and> (\<exists>c\<in>set ''myapp''. c \<noteq> CHR ''.'') \<and> CHR ''.'' \<notin> set ''pex'' \<and> CHR ''/'' \<notin> set ''pex''"
    by simp
  then have stem: "fst (splitext (basename ''/home/j.doe/myapp.pex'')) = ''myapp''"
    using th [THEN conjunct2, THEN conjunct1] by simp
  have ext: "''/user/j.doe/blah.pex'' \<noteq> []
      \<and> snd (splitext ''/user/j.doe/blah.pex'') = ''.'' @ extension PEX_PACKER"
    using splitext_stem_dir [of "''blah''" "''pex''" "''/user/j.doe''"] by simp
  from th [THEN conjunct1, rule_format, OF run] pexfile stem ext
  show "detect_archive_names ?ctx PEX_PACKER (Some ''/user/j.doe/blah.pex'')
      = Inr (''/user/j.doe/blah.pex'', ''myapp'', ''/home/j.doe/myapp.pex'')"
    by auto
next
  let ?ctx = "example_process\<lparr>environ := [''PEX'' \<mapsto> ''/home/j.doe/myapp.pex''],
                        check_output := (\<lambda>cmd. Inr ''hdfs://root'')\<rparr>"
  note th = env_name_derivation [where ctx = "?ctx" and packer = CONDA_PACKER
      and d = "''/home/j.doe/''" and stem = "''myapp''" and ext = "''pex''"
      and fs = "''hdfs://root''"]
  have run: "running_from_pex ?ctx = Inr True" by (simp add: running_from_pex_def)
  have pexfile: "get_current_pex_filepath ?ctx = Inr ''/home/j.doe/myapp.pex''"
    by (simp add: get_current_pex_filepath_def)
  have "(''/home/j.doe/'' = [] \<or> last ''/home/j.doe/'' = CHR ''/'') \<and> CHR ''/'' \<notin> set ''myapp''
      \<and> (\<exists>c\<in>set ''myapp''. c \<noteq> CHR ''.'') \<and> CHR ''.'' \<notin> set ''pex'' \<and> CHR ''/'' \<notin> set ''pex''"
    by simp
  then have stem: "fst (splitext (basename ''/home/j.doe/myapp.pex'')) = ''myapp''"
    using th [THEN conjunct2, THEN conjunct1] by simp
  have fs: "get_default_fs ?ctx = Inr ''hdfs://root''"
    by (simp add: get_default_fs_def strip_def is_space_def)
  have user: "getuser ?ctx = ''j.doe''" by (simp add: example_process_def)
  from th [THEN conjunct1, rule_format, OF run] pexfile stem fs user
  show "detect_archive_names ?ctx CONDA_PACKER None
      = Inr (''hdfs://root/user/j.doe/envs/myapp.tar.gz'', ''myapp'', ''/home/j.doe/myapp.pex'')"
    by auto
next
  let ?ctx = "example_process\<lparr>environ := [''VIRTUAL_ENV'' \<mapsto> ''/path/to/my_venv'']\<rparr>"
  note th = env_name_derivation [where ctx = "?ctx" and packer = PEX_PACKER
      and p = "''/user/j.doe/my_venv.pex''" and var = "''VIRTUAL_ENV''"
      and val = "''/path/to/my_venv''"]
  have run: "running_from_pex ?ctx = Inr False"
    by (simp add: running_from_pex_def example_process_def)
  have base: "basename ''/path/to/my_venv'' = ''my_venv''"
    using basename_append [of "''my_venv''" "''/path/to''"] by simp
  have "get_env_name ?ctx ''VIRTUAL_ENV'' = ''my_venv''"
    using th [THEN conjunct2, THEN conjunct2, THEN conjunct2, THEN conjunct2, THEN conjunct2,
        THEN conjunct1]
    by (simp add: base)
  then have name: "env_name ?ctx PEX_PACKER = Inr ''my_venv''"
    using th [THEN conjunct2, THEN conjunct2, THEN conjunct2, THEN conjunct2, THEN conjunct1]
    by simp
  have ext: "''/user/j.doe/my_venv.pex'' \<noteq> []
      \<and> snd (splitext ''/user/j.doe/my_venv.pex'') = ''.'' @ extension PEX_PACKER"
    using splitext_stem_dir [of "''my_venv''" "''pex''" "''/user/j.doe''"] by simp
  from th [THEN conjunct2, THEN conjunct2, THEN conjunct1, rule_format, OF run, THEN conjunct1,
      rule_format, OF name, THEN conjunct2, THEN conjunct1, rule_format, OF ext]
  show "detect_archive_names ?ctx PEX_PACKER (Some ''/user/j.doe/my_venv.pex'')
      = Inr (''/user/j.doe/my_venv.pex'', ''my_venv'', [])" .
next
  let ?ctx = "example_process\<lparr>check_output := (\<lambda>cmd. Inr ''hdfs://root'')\<rparr>"
  note th = env_name_derivation [where ctx = "?ctx" and packer = CONDA_PACKER
      and fs = "''hdfs://root''"]
  have run: "running_from_pex ?ctx = Inr False"
    by (simp add: running_from_pex_def example_process_def)
  have name: "env_name ?ctx CONDA_PACKER = Inr ''myenv''"
    by (simp add: conda_env_name_def path_parts_def example_process_def)
  have fs: "get_default_fs ?ctx = Inr ''hdfs://root''"
    by (simp add: get_default_fs_def strip_def is_space_def)
  have user: "getuser ?ctx = ''j.doe''" by (simp add: example_process_def)
  from th [THEN conjunct2, THEN conjunct2, THEN conjunct1, rule_format, OF run, THEN conjunct1,
      rule_format, OF name, THEN conjunct2, THEN conjunct2, rule_format, OF fs] user
  show "detect_archive_names ?ctx CONDA_PACKER None
      = Inr (''hdfs://root/user/j.doe/envs/myenv.tar.gz'', ''myenv'', [])"
    by simp
next
  let ?ctx = "example_process\<lparr>environ := [''VARNAME'' \<mapsto> ''/path/to/my_venv'']\<rparr>"
  note th = env_name_derivation [where ctx = "?ctx" and var = "''VARNAME''"
      and val = "''/path/to/my_venv''"]
  have "basename ''/path/to/my_venv'' = ''my_venv''"
    using basename_append [of "''my_venv''" "''/path/to''"] by simp
  then show "get_env_name ?ctx ''VARNAME'' = ''my_venv''"
    using th [THEN conjunct2, THEN conjunct2, THEN conjunct2, THEN conjunct2, THEN conjunct2,
        THEN conjunct1]
    by simp
next
  note th = env_name_derivation [where ctx = example_process and var = "''VARNAME''"]
  have "environ example_process ''VARNAME'' = None" by (simp add: example_process_def)
  then show "get_env_name example_process ''VARNAME'' = ''default''"
    using th [THEN conjunct2, THEN conjunct2, THEN conjunct2, THEN conjunct2, THEN conjunct2,
        THEN conjunct2]
    by simp
qed

section \<open>The default archive path\<close>

text \<open>
  Claim C4. Without an explicit path (\<open>None\<close>, or the empty string), once the
  environment name is derived and \<open>hdfs getconf -confKey fs.defaultFS\<close> has
  printed the default file system, \<open>detect_archive_names\<close> returns the path
  \<open><default fs>/user/<user>/envs/<env_name>.<extension>\<close>, with the output of the
  query stripped as default file system, \<open>getpass.getuser()\<close> as user and the
  packer's extension (\<open>tar.gz\<close> for conda, \<open>pex\<close> for pex).
\<close>

theorem default_archive_path:
  "(package_path = None \<or> package_path = Some [])
   \<and> detect_env_name ctx packer = Inr (pf, name)
   \<and> check_output ctx [''hdfs'', ''getconf'', ''-confKey'', ''fs.defaultFS''] = Inr out
   \<longrightarrow> get_default_fs ctx = Inr (strip out)
       \<and> detect_archive_names ctx packer package_path
           = Inr (strip out @ ''/user/'' @ getuser ctx @ ''/envs/'' @ name @ ''.''
                    @ (case packer of CONDA_PACKER \<Rightarrow> ''tar.gz'' | PEX_PACKER \<Rightarrow> ''pex''),
                  name, pf)"
  by (cases packer)
    (auto simp: detect_archive_names_def default_package_path_def get_default_fs_def)

theorem default_archive_path_witness:
  "detect_archive_names
     (example_process\<lparr>check_output := (\<lambda>cmd. Inr (''hdfs://root'' @ [CHR 0x0A]))\<rparr>)
     PEX_PACKER None
   = Inr (''hdfs://root/user/j.doe/envs/default.pex'', ''default'', [])"
proof -
  let ?ctx = "example_process\<lparr>check_output := (\<lambda>cmd. Inr (''hdfs://root'' @ [CHR 0x0A]))\<rparr>"
  have env: "detect_env_name ?ctx PEX_PACKER = Inr ([], ''default'')"
    by (simp add: detect_env_name_def running_from_pex_def get_env_name_def example_process_def)
  have out: "check_output ?ctx [''hdfs'', ''getconf'', ''-confKey'', ''fs.defaultFS'']
      = Inr (''hdfs://root'' @ [CHR 0x0A])"
    by simp
  have strip: "strip (''hdfs://root'' @ [CHR 0x0A]) = ''hdfs://root''"
    by (simp add: strip_def is_space_def)
  have user: "getuser ?ctx = ''j.doe''" by (simp add: example_process_def)
  show ?thesis
    using default_archive_path [of None "?ctx" PEX_PACKER "[]" "''default''" "''hdfs://root'' @ [CHR 0x0A]"]
      env out
    unfolding strip user by simp
qed

section \<open>The extension of an explicit path\<close>

lemma conda_explicit_path_rejected:
  "\<exists>msg. check_package_path CONDA_PACKER p = Inl (ValueError msg)"
proof -
  have "snd (splitext p) \<noteq> ''.tar.gz''"
    using splitext_ext_cases [of p] by auto
  then show ?thesis by (simp add: check_package_path_def)
qed

text \<open>
  With the pex packer, or any packer, an explicit path that is not empty is returned
  as it is when \<open>os.path.splitext\<close> gives it the extension \<open>.\<close> followed by the
  packer's extension, and \<open>ValueError\<close> is raised otherwise; the default file system
  is not queried.
\<close>

theorem explicit_path_extension_checked:
  "package_path = Some p \<and> p \<noteq> [] \<and> detect_env_name ctx packer = Inr (pf, name)
   \<longrightarrow> (snd (splitext p) = ''.'' @ extension packer
         \<longrightarrow> detect_archive_names ctx packer package_path = Inr (p, name, pf))
       \<and> (snd (splitext p) \<noteq> ''.'' @ extension packer
         \<longrightarrow> detect_archive_names ctx packer package_path
               = Inl (ValueError (p @ '' has the wrong extension, .'' @ extension packer
                                  @ '' is expected'')))"
  by (auto simp: detect_archive_names_def check_package_path_def)

theorem explicit_path_extension_checked_witness:
  "detect_archive_names example_process PEX_PACKER (Some ''/user/j.doe/blah.pex'')
     = Inr (''/user/j.doe/blah.pex'', ''default'', [])
   \<and> detect_archive_names example_process PEX_PACKER (Some ''myarchive.tar.gz'')
     = Inl (ValueError ''myarchive.tar.gz has the wrong extension, .pex is expected'')"
proof -
  have env: "detect_env_name example_process PEX_PACKER = Inr ([], ''default'')"
    by (simp add: detect_env_name_def running_from_pex_def get_env_name_def example_process_def)
  have pex: "snd (splitext ''/user/j.doe/blah.pex'') = ''.'' @ extension PEX_PACKER"
    using splitext_stem_dir [of "''blah''" "''pex''" "''/user/j.doe''"] by simp
  have gz: "snd (splitext ''myarchive.tar.gz'') \<noteq> ''.'' @ extension PEX_PACKER"
    using splitext_stem_plain [of "''myarchive.tar''" "''gz''"] by simp
  have a: "Some ''/user/j.doe/blah.pex'' = Some ''/user/j.doe/blah.pex''
      \<and> ''/user/j.doe/blah.pex'' \<noteq> []
      \<and> detect_env_name example_process PEX_PACKER = Inr ([], ''default'')"
    using env by simp
  have b: "Some ''myarchive.tar.gz'' = Some ''myarchive.tar.gz'' \<and> ''myarchive.tar.gz'' \<noteq> []
      \<and> detect_env_name example_process PEX_PACKER = Inr ([], ''default'')"
    using env by simp
  show ?thesis
    using explicit_path_extension_checked [rule_format, OF a, THEN conjunct1, rule_format, OF pex]
      explicit_path_extension_checked [rule_format, OF b, THEN conjunct2, rule_format, OF gz]
    by simp
qed

text \<open>
  Claim C2, at the path \<open>myarchive.tar.gz\<close> with the conda packer: the path ends in
  the packer's extension, \<open>detect_packer_from_file\<close> recognises it as a conda
  archive, and \<open>detect_archive_names\<close> raises \<open>ValueError\<close> on it, since
  \<open>os.path.splitext\<close> gives the extension \<open>.gz\<close>.
\<close>

theorem conda_tar_gz_path_rejected:
  "detect_archive_names example_process CONDA_PACKER (Some ''myarchive.tar.gz'')
     = Inl (ValueError ''myarchive.tar.gz has the wrong extension, .tar.gz is expected'')
   \<and> splitext ''myarchive.tar.gz'' = (''myarchive.tar'', ''.gz'')
   \<and> endswith ''myarchive.tar.gz'' (''.'' @ extension CONDA_PACKER)
   \<and> detect_packer_from_file ''myarchive.tar.gz'' = Inr CONDA_PACKER"
proof -
  have ext: "splitext ''myarchive.tar.gz'' = (''myarchive.tar'', ''.gz'')"
    using splitext_stem_plain [of "''myarchive.tar''" "''gz''"] by simp
  have env: "detect_env_name example_process CONDA_PACKER = Inr ([], ''myenv'')"
    by (simp add: detect_env_name_def running_from_pex_def conda_env_name_def path_parts_def
        example_process_def)
  show ?thesis
    by (simp add: detect_archive_names_def env check_package_path_def ext
        detect_packer_from_file_def endswith_def)
qed

section \<open>The package inventory\<close>





section \<open>Editable requirements inside a pex\<close>

lemma in_keys: "(k, v) \<in> set d \<Longrightarrow> k \<in> fst ` set d"
  by force

lemma dict_set_keys: "fst ` set (dict_set k v d) = insert k (fst ` set d)"
proof (induction d)
  case Nil
  show ?case by simp
next
  case (Cons a d)
  show ?case
  proof (cases "k = fst a")
    case True
    then show ?thesis by (cases a) (auto dest: in_keys)
  next
    case False
    then show ?thesis using Cons.IH by (cases a) (auto dest: in_keys)
  qed
qed

lemma dict_set_entries: "(k', v') \<in> set (dict_set k v d) \<Longrightarrow> (k', v') = (k, v) \<or> (k', v') \<in> set d"
  by (induction d) (auto split: if_splits)

lemma dict_set_distinct: "distinct (map fst d) \<Longrightarrow> distinct (map fst (dict_set k v d))"
proof (induction d)
  case Nil
  then show ?case by simp
next
  case (Cons a d)
  have "fst ` set (dict_set k v d) = insert k (fst ` set d)" by (rule dict_set_keys)
  then show ?case using Cons by (cases a) auto
qed

lemma find_editable_skips:
  assumes "\<forall>name\<in>set names. find_module ctx name = Inl ImportError
             \<or> find_module ctx name = Inl ModuleNotFoundError
             \<or> (\<exists>p. find_module ctx name = Inr (Some p))"
  shows "find_editable ctx acc names =
           Inr (foldl (\<lambda>d p. dict_set (basename p) p d) acc
                  (concat (map (\<lambda>name. case find_module ctx name of
                                          Inr (Some p) \<Rightarrow> [p] | Inr None \<Rightarrow> [] | Inl e \<Rightarrow> [])
                             names)))"
  using assms
proof (induction names arbitrary: acc)
  case Nil
  then show ?case by simp
next
  case (Cons name names)
  then have IH: "\<And>acc. find_editable ctx acc names =
           Inr (foldl (\<lambda>d p. dict_set (basename p) p d) acc
                  (concat (map (\<lambda>name. case find_module ctx name of
                                          Inr (Some p) \<Rightarrow> [p] | Inr None \<Rightarrow> [] | Inl e \<Rightarrow> [])
                             names)))"
    by simp
  from Cons.prems have "find_module ctx name = Inl ImportError
      \<or> find_module ctx name = Inl ModuleNotFoundError
      \<or> (\<exists>p. find_module ctx name = Inr (Some p))"
    by simp
  then show ?case by (auto simp: IH)
qed

lemma find_editable_append:
  "find_editable ctx acc (xs @ ys)
     = (case find_editable ctx acc xs of
          Inl e \<Rightarrow> Inl e
        | Inr acc' \<Rightarrow> find_editable ctx acc' ys)"
  by (induction xs arbitrary: acc) (auto split: sum.splits option.splits)

lemma find_editable_no_path:
  assumes "\<forall>name\<in>set names. find_module ctx name = Inl ImportError
             \<or> find_module ctx name = Inl ModuleNotFoundError
             \<or> (\<exists>p. find_module ctx name = Inr (Some p))"
    and "find_module ctx name = Inr None"
  shows "find_editable ctx acc (names @ name # rest) = Inl TypeError"
  using assms(2) by (simp add: find_editable_append find_editable_skips [OF assms(1)])

lemma fold_dict_set_keys:
  "fst ` set (foldl (\<lambda>d p. dict_set (f p) p d) acc ps) = fst ` set acc \<union> f ` set ps"
  by (induction ps arbitrary: acc) (auto simp: dict_set_keys)

lemma fold_dict_set_entries:
  "(k, v) \<in> set (foldl (\<lambda>d p. dict_set (f p) p d) acc ps)
     \<Longrightarrow> (k, v) \<in> set acc \<or> (v \<in> set ps \<and> k = f v)"
proof (induction ps arbitrary: acc)
  case Nil
  then show ?case by simp
next
  case (Cons p ps)
  then have "(k, v) \<in> set (dict_set (f p) p acc) \<or> (v \<in> set ps \<and> k = f v)" by simp
  then show ?case using dict_set_entries [of k v "f p" p acc] by auto
qed

lemma fold_dict_set_distinct:
  "distinct (map fst acc) \<Longrightarrow> distinct (map fst (foldl (\<lambda>d p. dict_set (f p) p d) acc ps))"
  by (induction ps arbitrary: acc) (auto simp: dict_set_distinct)

lemma resolved_paths:
  "set (concat (map (\<lambda>name. case find_module ctx name of
                              Inr (Some p) \<Rightarrow> [p] | Inr None \<Rightarrow> [] | Inl e \<Rightarrow> []) names))
     = {p. \<exists>name\<in>set names. find_module ctx name = Inr (Some p)}"
  by (auto split: sum.splits option.splits)

text \<open>
  Claim C9, as the code has it. In a pex, \<open>get_editable_requirements\<close> reads the index file
  \<open>editable_packages_index\<close> of the given directory, one package name per line.
  A missing index file gives the empty mapping. Where every name of the index either
  makes \<open>imp.find_module\<close> raise \<open>ImportError\<close> or resolves to a location, the names
  that raise are skipped and raise nothing, and the mapping returned is built from
  the resolved locations alone, in the order of the index: its keys are the
  basenames of these locations (not the names of the index), each key appears
  once, and each entry maps the basename of a resolved location to that location.
  A name that resolves without a location (a built-in or frozen module), after
  names that raise \<open>ImportError\<close> or resolve to a location, makes
  \<open>get_editable_requirements\<close> raise \<open>TypeError\<close>.
\<close>

theorem editable_requirements_in_pex:
  "running_from_pex ctx = Inr True \<longrightarrow>
     (read_text ctx (editable_packages_dir @ ''/editable_packages_index'') = Inl FileNotFoundError
        \<longrightarrow> get_editable_requirements ctx executable editable_packages_dir = Inr [])
     \<and> (read_text ctx (editable_packages_dir @ ''/editable_packages_index'') = Inr content
         \<and> (\<forall>name\<in>set (splitlines content).
               find_module ctx name = Inl ImportError
               \<or> find_module ctx name = Inl ModuleNotFoundError
               \<or> (\<exists>p. find_module ctx name = Inr (Some p)))
        \<longrightarrow> (\<exists>d. get_editable_requirements ctx executable editable_packages_dir = Inr d
              \<and> d = foldl (\<lambda>d p. dict_set (basename p) p d) []
                      (concat (map (\<lambda>name. case find_module ctx name of
                                              Inr (Some p) \<Rightarrow> [p] | Inr None \<Rightarrow> [] | Inl e \<Rightarrow> [])
                                 (splitlines content)))
              \<and> fst ` set d
                  = {basename p |p.
                       \<exists>name\<in>set (splitlines content). find_module ctx name = Inr (Some p)}
              \<and> distinct (map fst d)
              \<and> (\<forall>k p. (k, p) \<in> set d
                    \<longrightarrow> k = basename p
                        \<and> (\<exists>name\<in>set (splitlines content).
                              find_module ctx name = Inr (Some p)))))
     \<and> (read_text ctx (editable_packages_dir @ ''/editable_packages_index'') = Inr content
         \<and> splitlines content = names @ name # rest
         \<and> (\<forall>name\<in>set names.
               find_module ctx name = Inl ImportError
               \<or> find_module ctx name = Inl ModuleNotFoundError
               \<or> (\<exists>p. find_module ctx name = Inr (Some p)))
         \<and> find_module ctx name = Inr None
        \<longrightarrow> get_editable_requirements ctx executable editable_packages_dir = Inl TypeError)"
proof (intro impI conjI)
  assume "running_from_pex ctx = Inr True"
    and "read_text ctx (editable_packages_dir @ ''/editable_packages_index'') = Inl FileNotFoundError"
  then show "get_editable_requirements ctx executable editable_packages_dir = Inr []"
    by (simp add: get_editable_requirements_def EDITABLE_PACKAGES_INDEX_def)
next
  let ?ps = "concat (map (\<lambda>name. case find_module ctx name of
                                    Inr (Some p) \<Rightarrow> [p] | Inr None \<Rightarrow> [] | Inl e \<Rightarrow> [])
                       (splitlines content))"
  let ?d = "foldl (\<lambda>d p. dict_set (basename p) p d) [] ?ps"
  assume run: "running_from_pex ctx = Inr True"
    and "read_text ctx (editable_packages_dir @ ''/editable_packages_index'') = Inr content
         \<and> (\<forall>name\<in>set (splitlines content).
               find_module ctx name = Inl ImportError
               \<or> find_module ctx name = Inl ModuleNotFoundError
               \<or> (\<exists>p. find_module ctx name = Inr (Some p)))"
  then have rd: "read_text ctx (editable_packages_dir @ ''/editable_packages_index'') = Inr content"
    and ok: "\<forall>name\<in>set (splitlines content).
               find_module ctx name = Inl ImportError
               \<or> find_module ctx name = Inl ModuleNotFoundError
               \<or> (\<exists>p. find_module ctx name = Inr (Some p))"
    by simp_all
  have ps: "set ?ps = {p. \<exists>name\<in>set (splitlines content). find_module ctx name = Inr (Some p)}"
    by (rule resolved_paths)
  have res: "get_editable_requirements ctx executable editable_packages_dir = Inr ?d"
    using run rd find_editable_skips [OF ok, of "[]"]
    by (simp add: get_editable_requirements_def EDITABLE_PACKAGES_INDEX_def)
  have keys: "fst ` set ?d
      = {basename p |p. \<exists>name\<in>set (splitlines content). find_module ctx name = Inr (Some p)}"
    unfolding fold_dict_set_keys ps by auto
  have dist: "distinct (map fst ?d)"
    by (rule fold_dict_set_distinct) simp
  have entries: "\<forall>k p. (k, p) \<in> set ?d
      \<longrightarrow> k = basename p
          \<and> (\<exists>name\<in>set (splitlines content). find_module ctx name = Inr (Some p))"
    using fold_dict_set_entries [of _ _ basename "[]" ?ps] ps by auto
  show "\<exists>d. get_editable_requirements ctx executable editable_packages_dir = Inr d
      \<and> d = ?d
      \<and> fst ` set d
          = {basename p |p. \<exists>name\<in>set (splitlines content). find_module ctx name = Inr (Some p)}
      \<and> distinct (map fst d)
      \<and> (\<forall>k p. (k, p) \<in> set d
            \<longrightarrow> k = basename p
                \<and> (\<exists>name\<in>set (splitlines content). find_module ctx name = Inr (Some p)))"
    using res keys dist entries by blast
next
  assume run: "running_from_pex ctx = Inr True"
    and "read_text ctx (editable_packages_dir @ ''/editable_packages_index'') = Inr content
         \<and> splitlines content = names @ name # rest
         \<and> (\<forall>name\<in>set names.
               find_module ctx name = Inl ImportError
               \<or> find_module ctx name = Inl ModuleNotFoundError
               \<or> (\<exists>p. find_module ctx name = Inr (Some p)))
         \<and> find_module ctx name = Inr None"
  then have rd: "read_text ctx (editable_packages_dir @ ''/editable_packages_index'') = Inr content"
    and lines: "splitlines content = names @ name # rest"
    and ok: "\<forall>name\<in>set names.
               find_module ctx name = Inl ImportError
               \<or> find_module ctx name = Inl ModuleNotFoundError
               \<or> (\<exists>p. find_module ctx name = Inr (Some p))"
    and none: "find_module ctx name = Inr None"
    by simp_all
  show "get_editable_requirements ctx executable editable_packages_dir = Inl TypeError"
    using run rd lines find_editable_no_path [OF ok none, of "[]" rest]
    by (simp add: get_editable_requirements_def EDITABLE_PACKAGES_INDEX_def)
qed

theorem editable_requirements_in_pex_witness:
  "get_editable_requirements
     (example_process\<lparr>
        environ := [''PEX'' \<mapsto> ''/home/j.doe/myapp.pex''],
        read_text := (\<lambda>path. if path = ''/work/editable_packages_index''
                             then Inr (''user_lib'' @ CHR 0x0A # ''not-existing-pgk'' @ [CHR 0x0A])
                             else Inl FileNotFoundError),
        find_module := (\<lambda>name. if name = ''user_lib'' then Inr (Some ''/work/user_lib'')
                               else Inl ImportError)\<rparr>)
     ''python'' ''/work''
   = Inr [(''user_lib'', ''/work/user_lib'')]
   \<and> get_editable_requirements
     (example_process\<lparr>environ := [''PEX'' \<mapsto> ''/home/j.doe/myapp.pex'']\<rparr>) ''python'' ''/work''
   = Inr []
   \<and> get_editable_requirements
     (example_process\<lparr>
        environ := [''PEX'' \<mapsto> ''/home/j.doe/myapp.pex''],
        read_text := (\<lambda>path. if path = ''/work/editable_packages_index''
                             then Inr (''not-existing-pgk'' @ CHR 0x0A # ''sys'' @ [CHR 0x0A])
                             else Inl FileNotFoundError),
        find_module := (\<lambda>name. if name = ''sys'' then Inr None else Inl ImportError)\<rparr>)
     ''python'' ''/work''
   = Inl TypeError"
proof (intro conjI)
  let ?content = "''user_lib'' @ CHR 0x0A # ''not-existing-pgk'' @ [CHR 0x0A]"
  let ?ctx = "example_process\<lparr>
        environ := [''PEX'' \<mapsto> ''/home/j.doe/myapp.pex''],
        read_text := (\<lambda>path. if path = ''/work/editable_packages_index''
                             then Inr ?content else Inl FileNotFoundError),
        find_module := (\<lambda>name. if name = ''user_lib'' then Inr (Some ''/work/user_lib'')
                               else Inl ImportError)\<rparr>"
  have run: "running_from_pex ?ctx = Inr True" by (simp add: running_from_pex_def)
  have lines: "splitlines ?content = [''user_lib'', ''not-existing-pgk'']"
    by (simp add: splitlines_def is_line_boundary_def)
  have rd: "read_text ?ctx (''/work'' @ ''/editable_packages_index'') = Inr ?content
      \<and> (\<forall>name\<in>set (splitlines ?content).
            find_module ?ctx name = Inl ImportError
            \<or> find_module ?ctx name = Inl ModuleNotFoundError
            \<or> (\<exists>p. find_module ?ctx name = Inr (Some p)))"
    unfolding lines by simp
  have base: "basename ''/work/user_lib'' = ''user_lib''"
    using basename_append [of "''user_lib''" "''/work''"] by simp
  from editable_requirements_in_pex [where ctx = "?ctx" and editable_packages_dir = "''/work''"
        and content = "?content" and executable = "''python''",
      rule_format, OF run, THEN conjunct2, THEN conjunct1, rule_format, OF rd]
  show "get_editable_requirements ?ctx ''python'' ''/work'' = Inr [(''user_lib'', ''/work/user_lib'')]"
    unfolding lines by (auto simp: base)
next
  let ?ctx = "example_process\<lparr>environ := [''PEX'' \<mapsto> ''/home/j.doe/myapp.pex'']\<rparr>"
  have run: "running_from_pex ?ctx = Inr True" by (simp add: running_from_pex_def)
  have rd: "read_text ?ctx (''/work'' @ ''/editable_packages_index'') = Inl FileNotFoundError"
    by (simp add: example_process_def)
  from editable_requirements_in_pex [where ctx = "?ctx" and editable_packages_dir = "''/work''"
        and executable = "''python''",
      rule_format, OF run, THEN conjunct1, rule_format, OF rd]
  show "get_editable_requirements ?ctx ''python'' ''/work'' = Inr []" .
next
  let ?content = "''not-existing-pgk'' @ CHR 0x0A # ''sys'' @ [CHR 0x0A]"
  let ?ctx = "example_process\<lparr>
        environ := [''PEX'' \<mapsto> ''/home/j.doe/myapp.pex''],
        read_text := (\<lambda>path. if path = ''/work/editable_packages_index''
                             then Inr ?content else Inl FileNotFoundError),
        find_module := (\<lambda>name. if name = ''sys'' then Inr None else Inl ImportError)\<rparr>"
  have run: "running_from_pex ?ctx = Inr True" by (simp add: running_from_pex_def)
  have lines: "splitlines ?content = [''not-existing-pgk''] @ ''sys'' # []"
    by (simp add: splitlines_def is_line_boundary_def)
  have rd: "read_text ?ctx (''/work'' @ ''/editable_packages_index'') = Inr ?content
      \<and> splitlines ?content = [''not-existing-pgk''] @ ''sys'' # []
      \<and> (\<forall>name\<in>set [''not-existing-pgk''].
            find_module ?ctx name = Inl ImportError
            \<or> find_module ?ctx name = Inl ModuleNotFoundError
            \<or> (\<exists>p. find_module ?ctx name = Inr (Some p)))
      \<and> find_module ?ctx ''sys'' = Inr None"
    using lines by simp
  from editable_requirements_in_pex [where ctx = "?ctx" and editable_packages_dir = "''/work''"
        and content = "?content" and executable = "''python''"
        and names = "[''not-existing-pgk'']" and name = "''sys''" and rest = "[]",
      rule_format, OF run, THEN conjunct2, THEN conjunct2, rule_format, OF rd]
  show "get_editable_requirements ?ctx ''python'' ''/work'' = Inl TypeError" .
qed

text \<open>
  Claim C9 as stated fails on the keys of the mapping and on a name without a
  location. With the index \<open>user_mod\<close> and the module \<open>user_mod\<close> found as the file
  \<open>/work/user_mod.py\<close>, the mapping returned holds the key \<open>user_mod.py\<close> and not the
  name \<open>user_mod\<close>. With the index \<open>sys\<close>, a module that \<open>imp.find_module\<close> resolves
  with the path \<open>None\<close>, \<open>get_editable_requirements\<close> raises \<open>TypeError\<close>.
\<close>

theorem editable_requirements_names_counterexample:
  "get_editable_requirements
     (example_process\<lparr>
        environ := [''PEX'' \<mapsto> ''/home/j.doe/myapp.pex''],
        read_text := (\<lambda>path. if path = ''/work/editable_packages_index''
                             then Inr (''user_mod'' @ [CHR 0x0A]) else Inl FileNotFoundError),
        find_module := (\<lambda>name. if name = ''user_mod'' then Inr (Some ''/work/user_mod.py'')
                               else Inl ImportError)\<rparr>)
     ''python'' ''/work''
   = Inr [(''user_mod.py'', ''/work/user_mod.py'')]
   \<and> ''user_mod'' \<notin> fst ` set [(''user_mod.py'', ''/work/user_mod.py'')]
   \<and> get_editable_requirements
     (example_process\<lparr>
        environ := [''PEX'' \<mapsto> ''/home/j.doe/myapp.pex''],
        read_text := (\<lambda>path. if path = ''/work/editable_packages_index''
                             then Inr (''sys'' @ [CHR 0x0A]) else Inl FileNotFoundError),
        find_module := (\<lambda>name. if name = ''sys'' then Inr None else Inl ImportError)\<rparr>)
     ''python'' ''/work''
   = Inl TypeError"
proof -
  have base: "basename ''/work/user_mod.py'' = ''user_mod.py''"
    using basename_append [of "''user_mod.py''" "''/work''"] by simp
  show ?thesis
    by (simp add: get_editable_requirements_def running_from_pex_def EDITABLE_PACKAGES_INDEX_def
        splitlines_def is_line_boundary_def base)
qed

section \<open>The freshness check\<close>

lemma dict_eq_iff_map_of:
  assumes "distinct (map fst a)" "distinct (map fst b)"
  shows "dict_eq a b \<longleftrightarrow> map_of a = map_of b"
proof
  assume eq: "dict_eq a b"
  then have len: "length a = length b"
    and all: "\<And>k v. (k, v) \<in> set a \<Longrightarrow> map_of b k = Some v"
    by (auto simp: dict_eq_def list_all_iff)
  have sub: "fst ` set a \<subseteq> fst ` set b"
  proof
    fix k assume "k \<in> fst ` set a"
    then obtain v where "(k, v) \<in> set a" by auto
    then have "map_of b k = Some v" by (rule all)
    then show "k \<in> fst ` set b" by (metis map_of_SomeD fst_conv image_eqI)
  qed
  have "card (fst ` set a) = length a" "card (fst ` set b) = length b"
    using assms distinct_card [of "map fst a"] distinct_card [of "map fst b"] by simp_all
  then have keys: "fst ` set a = fst ` set b"
    using sub len by (simp add: card_subset_eq)
  show "map_of a = map_of b"
  proof
    fix k
    show "map_of a k = map_of b k"
    proof (cases "map_of a k")
      case None
      then have "k \<notin> fst ` set b" using keys by (simp add: map_of_eq_None_iff)
      then have "map_of b k = None" by (simp add: map_of_eq_None_iff)
      then show ?thesis by (simp only: None)
    next
      case (Some v)
      then have "(k, v) \<in> set a" by (rule map_of_SomeD)
      then show ?thesis using Some all by simp
    qed
  qed
next
  assume eq: "map_of a = map_of b"
  then have "dom (map_of a) = dom (map_of b)" by simp
  then have "fst ` set a = fst ` set b" by (simp only: dom_map_of_conv_image_fst)
  moreover have "card (fst ` set a) = length a" "card (fst ` set b) = length b"
    using assms distinct_card [of "map fst a"] distinct_card [of "map fst b"] by simp_all
  ultimately have "length a = length b" by simp
  moreover have "map_of b (fst kv) = Some (snd kv)" if "kv \<in> set a" for kv
  proof -
    have "(fst kv, snd kv) \<in> set a" using that by simp
    then have "map_of a (fst kv) = Some (snd kv)"
      by (rule map_of_is_SomeI [OF assms(1)])
    then show ?thesis using eq by simp
  qed
  ultimately show "dict_eq a b" by (simp add: dict_eq_def list_all_iff)
qed

lemma map_of_eq_keys_values:
  "map_of a = map_of b
     \<longleftrightarrow> fst ` set a = fst ` set b \<and> (\<forall>k\<in>fst ` set b. map_of a k = map_of b k)"
proof
  assume eq: "map_of a = map_of b"
  then have "dom (map_of a) = dom (map_of b)" by simp
  then have "fst ` set a = fst ` set b" by (simp only: dom_map_of_conv_image_fst)
  then show "fst ` set a = fst ` set b \<and> (\<forall>k\<in>fst ` set b. map_of a k = map_of b k)"
    using eq by simp
next
  assume r: "fst ` set a = fst ` set b \<and> (\<forall>k\<in>fst ` set b. map_of a k = map_of b k)"
  show "map_of a = map_of b"
  proof
    fix k
    show "map_of a k = map_of b k"
    proof (cases "k \<in> fst ` set b")
      case True
      then show ?thesis using r by blast
    next
      case False
      then have "map_of b k = None" "map_of a k = None"
        using r by (simp_all add: map_of_eq_None_iff)
      then show ?thesis by simp
    qed
  qed
qed

lemma map_of_versions:
  "map_of (map (\<lambda>kv. (fst kv, JString (snd kv))) r) k = map_option JString (map_of r k)"
  by (induction r) auto

text \<open>
  Claim C1. The freshness check returns \<open>False\<close> when the archive does not exist,
  whatever the metadata holds, and when the archive exists and its metadata file
  does not. When both exist and the metadata parses to a mapping, it returns
  whether that mapping equals the current requirements: the same keys, and for
  each key the same version string.
\<close>

theorem freshness_check:
  "(fs package_path = None
      \<longrightarrow> is_archive_up_to_date loads fs package_path current_requirements = Inr False)
   \<and> (fs package_path \<noteq> None \<and> fs (get_archive_metadata_path package_path) = None
      \<longrightarrow> is_archive_up_to_date loads fs package_path current_requirements = Inr False)
   \<and> (fs package_path \<noteq> None \<and> fs (get_archive_metadata_path package_path) = Some content
       \<and> loads content = Some (JObject metadata)
       \<and> distinct (map fst metadata) \<and> distinct (map fst current_requirements)
      \<longrightarrow> is_archive_up_to_date loads fs package_path current_requirements
           = Inr (fst ` set metadata = fst ` set current_requirements
                  \<and> (\<forall>k\<in>fst ` set current_requirements.
                        map_of metadata k = map_option JString (map_of current_requirements k))))"
proof (intro conjI impI)
  let ?r = "map (\<lambda>kv. (fst kv, JString (snd kv))) current_requirements"
  assume a: "fs package_path \<noteq> None \<and> fs (get_archive_metadata_path package_path) = Some content
       \<and> loads content = Some (JObject metadata)
       \<and> distinct (map fst metadata) \<and> distinct (map fst current_requirements)"
  then obtain y where ex: "fs package_path = Some y"
    and meta: "fs (get_archive_metadata_path package_path) = Some content"
    and parsed: "loads content = Some (JObject metadata)"
    and dm: "distinct (map fst metadata)" and dr: "distinct (map fst current_requirements)"
    by blast
  have keys: "map fst ?r = map fst current_requirements" by (simp add: comp_def)
  have kset: "fst ` set ?r = fst ` set current_requirements"
    using keys by (metis list.set_map)
  have "distinct (map fst ?r)" unfolding keys by (rule dr)
  then have "dict_eq metadata ?r \<longleftrightarrow> map_of metadata = map_of ?r"
    using dm by (intro dict_eq_iff_map_of)
  also have "\<dots> \<longleftrightarrow> fst ` set metadata = fst ` set ?r
      \<and> (\<forall>k\<in>fst ` set ?r. map_of metadata k = map_of ?r k)"
    by (rule map_of_eq_keys_values)
  finally have iff: "dict_eq metadata ?r \<longleftrightarrow> fst ` set metadata = fst ` set current_requirements
      \<and> (\<forall>k\<in>fst ` set current_requirements.
            map_of metadata k = map_option JString (map_of current_requirements k))"
    unfolding kset map_of_versions .
  have "is_archive_up_to_date loads fs package_path current_requirements
      = Inr (dict_eq metadata ?r)"
    by (simp add: is_archive_up_to_date_def ex meta parsed)
  then show "is_archive_up_to_date loads fs package_path current_requirements
           = Inr (fst ` set metadata = fst ` set current_requirements
                  \<and> (\<forall>k\<in>fst ` set current_requirements.
                        map_of metadata k = map_option JString (map_of current_requirements k)))"
    by (simp only: iff)
qed (auto simp: is_archive_up_to_date_def)


theorem freshness_check_witness:
  "is_archive_up_to_date
     (\<lambda>s. if s = ''{'' @ CHR 0x22 # ''a'' @ CHR 0x22 # '': '' @ CHR 0x22 # ''2.0'' @ CHR 0x22 # ''}''
          then Some (JObject [(''a'', JString ''2.0'')]) else None)
     [''myarchive.pex'' \<mapsto> ''PK'',
      ''myarchive.json'' \<mapsto>
        ''{'' @ CHR 0x22 # ''a'' @ CHR 0x22 # '': '' @ CHR 0x22 # ''2.0'' @ CHR 0x22 # ''}'']
     ''myarchive.pex'' [(''a'', ''2.0'')]
   = Inr True
   \<and> is_archive_up_to_date
     (\<lambda>s. if s = ''{'' @ CHR 0x22 # ''a'' @ CHR 0x22 # '': '' @ CHR 0x22 # ''2.0'' @ CHR 0x22 # ''}''
          then Some (JObject [(''a'', JString ''2.0'')]) else None)
     [''myarchive.pex'' \<mapsto> ''PK'',
      ''myarchive.json'' \<mapsto>
        ''{'' @ CHR 0x22 # ''a'' @ CHR 0x22 # '': '' @ CHR 0x22 # ''2.0'' @ CHR 0x22 # ''}'']
     ''myarchive.pex'' [(''a'', ''2.0''), (''b'', ''1.0'')]
   = Inr False
   \<and> is_archive_up_to_date
     (\<lambda>s. if s = ''{'' @ CHR 0x22 # ''a'' @ CHR 0x22 # '': '' @ CHR 0x22 # ''2.0'' @ CHR 0x22 # ''}''
          then Some (JObject [(''a'', JString ''2.0'')]) else None)
     [''myarchive.pex'' \<mapsto> ''PK'',
      ''myarchive.json'' \<mapsto>
        ''{'' @ CHR 0x22 # ''a'' @ CHR 0x22 # '': '' @ CHR 0x22 # ''2.0'' @ CHR 0x22 # ''}'']
     ''myarchive.pex'' [(''a'', ''1.0'')]
   = Inr False
   \<and> is_archive_up_to_date (\<lambda>s. None) Map.empty ''myarchive.pex'' [] = Inr False
   \<and> is_archive_up_to_date (\<lambda>s. None) [''myarchive.pex'' \<mapsto> ''PK''] ''myarchive.pex'' []
   = Inr False"
proof -
  let ?content = "''{'' @ CHR 0x22 # ''a'' @ CHR 0x22 # '': '' @ CHR 0x22 # ''2.0'' @ CHR 0x22 # ''}''"
  let ?loads = "\<lambda>s. if s = ?content then Some (JObject [(''a'', JString ''2.0'')]) else None"
  let ?fs = "[''myarchive.pex'' \<mapsto> ''PK'', ''myarchive.json'' \<mapsto> ?content]"
  have meta: "get_archive_metadata_path ''myarchive.pex'' = ''myarchive.json''"
    using splitext_stem_plain [of "''myarchive''" "''pex''"]
    by (simp add: get_archive_metadata_path_def)
  have pre: "?fs ''myarchive.pex'' \<noteq> None
      \<and> ?fs (get_archive_metadata_path ''myarchive.pex'') = Some ?content
      \<and> ?loads ?content = Some (JObject [(''a'', JString ''2.0'')])
      \<and> distinct (map fst [(''a'', JString ''2.0'')]) \<and> distinct (map fst r)"
    if "distinct (map fst r)" for r :: "(string \<times> string) list"
    unfolding meta using that by simp
  note th = freshness_check [where loads = "?loads" and fs = "?fs"
      and package_path = "''myarchive.pex''" and content = "?content"
      and metadata = "[(''a'', JString ''2.0'')]", THEN conjunct2, THEN conjunct2, rule_format,
      OF pre]
  have w1: "is_archive_up_to_date ?loads ?fs ''myarchive.pex'' [(''a'', ''2.0'')] = Inr True"
    using th [of "[(''a'', ''2.0'')]"] by simp
  have w2: "is_archive_up_to_date ?loads ?fs ''myarchive.pex'' [(''a'', ''2.0''), (''b'', ''1.0'')]
      = Inr False"
    using th [of "[(''a'', ''2.0''), (''b'', ''1.0'')]"] by simp
  have w3: "is_archive_up_to_date ?loads ?fs ''myarchive.pex'' [(''a'', ''1.0'')] = Inr False"
    using th [of "[(''a'', ''1.0'')]"] by simp
  have w4: "is_archive_up_to_date (\<lambda>s. None) Map.empty ''myarchive.pex'' [] = Inr False"
    using freshness_check [where loads = "\<lambda>s. None" and fs = Map.empty
        and package_path = "''myarchive.pex''" and current_requirements = "[]", THEN conjunct1]
    by simp
  have "[''myarchive.pex'' \<mapsto> ''PK''] ''myarchive.pex'' \<noteq> None
      \<and> [''myarchive.pex'' \<mapsto> ''PK''] (get_archive_metadata_path ''myarchive.pex'') = None"
    unfolding meta by simp
  then have w5: "is_archive_up_to_date (\<lambda>s. None) [''myarchive.pex'' \<mapsto> ''PK'']
      ''myarchive.pex'' [] = Inr False"
    using freshness_check [where loads = "\<lambda>s. None" and fs = "[''myarchive.pex'' \<mapsto> ''PK'']"
        and package_path = "''myarchive.pex''" and current_requirements = "[]",
        THEN conjunct2, THEN conjunct1]
    by blast
  show ?thesis using w1 w2 w3 w4 w5 by (intro conjI)
qed

section \<open>Facts about \<open>join\<close>, \<open>split\<close> and \<open>normpath\<close>\<close>


lemma endswith_sep: "endswith s ''/'' \<longleftrightarrow> (s \<noteq> [] \<and> last s = CHR ''/'')"
proof (cases s rule: rev_cases)
  case Nil
  then show ?thesis by (simp add: endswith_def)
next
  case (snoc ys y)
  then show ?thesis by (auto simp: endswith_def)
qed

lemma valid_name_not_abs: "valid_name d \<Longrightarrow> \<not> startswith d ''/''"
  by (cases d) (auto simp: valid_name_def startswith_def)

lemma join2_valid:
  "valid_name d \<Longrightarrow>
     join2 path d = (if path = [] \<or> last path = CHR ''/'' then path @ d else path @ ''/'' @ d)"
  by (auto simp: join2_def valid_name_not_abs endswith_sep)












lemma join2_not_Nil: "valid_name d \<Longrightarrow> join2 path d \<noteq> []"
  by (auto simp: join2_valid valid_name_def)













section \<open>Facts about \<open>relpath\<close> and the names in the archive\<close>
























section \<open>The entries of the archive\<close>




end
